theory Spec2Isabelle
  imports Complex_Main
begin

section \<open>The JavaScript platform, as far as \<open>cd-api.ts\<close> uses it\<close>

text \<open>
  The client in \<open>src/cd-api.ts\<close> is TypeScript running on a JavaScript engine. The parts of
  the platform it relies on are modelled here once, so that the functions of the client
  below can be read next to their source.

  Numbers. A JavaScript number is a double. The numbers of this program are station and
  connection identifiers, epoch milliseconds and prices in minor units: JSON integers.
  They are modelled as \<open>int\<close>, a quotient such as \<open>iPrice / 100\<close> as \<open>rat\<close>, and the value
  \<open>NaN\<close> as \<open>None\<close> of an option type. Up to \<open>2^53\<close> in magnitude every integer is a
  double, and a time value is always in that range, since \<open>TimeClip\<close> rejects everything
  beyond \<open>8.64e15\<close>. Two computations of the client can leave that range, and for them
  the rounding of doubles is modelled (subsection \<open>Rounding to a double\<close>): the
  difference of two time values and its quotient by \<open>60000\<close> in \<open>durationMinutes\<close>, and
  the station identifier that \<open>searchLocations\<close> turns into a key. The other identifiers
  (\<open>iID\<close>, \<open>iHandle\<close>) are taken to be below \<open>2^53\<close> in magnitude.

  Strings. A string is a list of characters; every character that the code looks at (the
  pattern of \<open>parseDate\<close>, the digits, the ISO format) is ASCII.

  Errors. A thrown value is an error object with its class and its message.
\<close>

datatype js_error =
    Error string
  | RangeError string
  | TypeError string
  | SyntaxError string

type_synonym 'a result = "js_error + 'a"

subsection \<open>Decimal digits: \<open>String(n)\<close> and \<open>parseInt(s, 10)\<close>\<close>

definition digit_char :: "nat \<Rightarrow> char" where
  "digit_char d = ''0123456789'' ! d"

definition is_digit :: "char \<Rightarrow> bool" where
  \<comment> \<open>the regular expression class \<open>\d\<close>: the ten characters 0 to 9\<close>
  "is_digit c = (48 \<le> (of_char c :: nat) \<and> (of_char c :: nat) \<le> 57)"

definition digit_val :: "char \<Rightarrow> int" where
  "digit_val c = of_char c - 48"

function digits_of :: "int \<Rightarrow> string" where
  \<comment> \<open>the decimal digits of a non-negative integer, without leading zeros\<close>
  "digits_of n =
     (if n < 10 then [digit_char (nat n)]
      else digits_of (n div 10) @ [digit_char (nat (n mod 10))])"
  by pat_completeness auto
termination
  by (relation "measure nat") auto

declare digits_of.simps [simp del]

definition int_of_digits :: "string \<Rightarrow> int" where
  "int_of_digits s = foldl (\<lambda>a c. 10 * a + digit_val c) 0 s"

definition Number_toString :: "int \<Rightarrow> string" where
  \<comment> \<open>\<open>String(n)\<close> and \<open>`${n}`\<close> for a double \<open>n\<close> that is an integer of magnitude at most
      \<open>2^54\<close>: its decimal expansion\<close>
  "Number_toString n = (if n < 0 then ''-'' @ digits_of (- n) else digits_of n)"

definition template_number :: "int option \<Rightarrow> string" where
  \<comment> \<open>\<open>`${x}`\<close> for a number that may be \<open>NaN\<close>\<close>
  "template_number x = (case x of None \<Rightarrow> ''NaN'' | Some n \<Rightarrow> Number_toString n)"

definition parseInt10 :: "string \<Rightarrow> int option" where
  \<comment> \<open>\<open>parseInt(s, 10)\<close>: an optional sign, then the longest run of digits; \<open>NaN\<close> when
      there is no digit. (Leading white space, which \<open>parseInt\<close> skips, is not modelled:
      the only argument in this program is a group matched by \<open>-?\d+\<close>. Beyond \<open>2^53\<close>
      the double that \<open>parseInt\<close> returns is not the integer written, but it is beyond
      \<open>2^53\<close> too, and \<open>TimeClip\<close> rejects both.)\<close>
  "parseInt10 s =
     (let neg = (case s of [] \<Rightarrow> False | c # _ \<Rightarrow> c = CHR ''-'');
          pos = (case s of [] \<Rightarrow> False | c # _ \<Rightarrow> c = CHR ''+'');
          r = (if neg \<or> pos then tl s else s);
          ds = takeWhile is_digit r
      in if ds = [] then None
         else Some ((if neg then - 1 else 1) * int_of_digits ds))"

subsection \<open>Dates: time values, \<open>toISOString\<close> and \<open>Date.parse\<close>\<close>

text \<open>
  A \<open>Date\<close> object holds a time value: an integer number of milliseconds since the epoch
  of magnitude at most \<open>8.64e15\<close>, or \<open>NaN\<close> (an invalid date), here \<open>int option\<close>.
\<close>

definition TimeClip :: "int \<Rightarrow> int option" where
  "TimeClip t = (if \<bar>t\<bar> > 8640000000000000 then None else Some t)"

definition Date_of_number :: "int option \<Rightarrow> int option" where
  \<comment> \<open>\<open>new Date(n)\<close> for a number \<open>n\<close>\<close>
  "Date_of_number n = (case n of None \<Rightarrow> None | Some t \<Rightarrow> TimeClip t)"

definition msPerDay :: int where
  "msPerDay = 86400000"

text \<open>
  The calendar of ECMAScript: \<open>DayFromYear\<close>, \<open>InLeapYear\<close> and the lengths of the months
  are its definitions. \<open>YearFromTime(t)\<close> is there the largest year \<open>y\<close> with
  \<open>DayFromYear(y) \<le> Day(t)\<close>; here it is computed from an estimate that is off by at most
  one year (\<open>year_bracket\<close> below proves that the result is that largest year). The month
  and the day of the month are found by walking through the months of the year.
\<close>

definition InLeapYear :: "int \<Rightarrow> bool" where
  "InLeapYear y = ((y mod 4 = 0 \<and> y mod 100 \<noteq> 0) \<or> y mod 400 = 0)"

definition DayFromYear :: "int \<Rightarrow> int" where
  "DayFromYear y =
     365 * (y - 1970) + (y - 1969) div 4 - (y - 1901) div 100 + (y - 1601) div 400"

definition DaysInMonth :: "int \<Rightarrow> int \<Rightarrow> int" where
  "DaysInMonth y m =
     (if m = 2 then (if InLeapYear y then 29 else 28)
      else if m = 4 \<or> m = 6 \<or> m = 9 \<or> m = 11 then 30 else 31)"

definition YearFromDay :: "int \<Rightarrow> int" where
  "YearFromDay z =
     (let y0 = 1970 + (400 * z) div 146097
      in if DayFromYear (y0 + 1) \<le> z then y0 + 1
         else if z < DayFromYear y0 then y0 - 1
         else y0)"

fun month_date :: "int \<Rightarrow> int list \<Rightarrow> int \<Rightarrow> int \<times> int" where
  \<comment> \<open>the month among \<open>ms\<close> and the day of that month reached \<open>r\<close> days after the first
      day of the first month of \<open>ms\<close>\<close>
  "month_date y [] r = (12, r + 1)"
| "month_date y (m # ms) r =
     (if r < DaysInMonth y m then (m, r + 1) else month_date y ms (r - DaysInMonth y m))"

definition MonthDateFromDay :: "int \<Rightarrow> int \<Rightarrow> int \<times> int" where
  \<comment> \<open>month (1 to 12) and day of the month of day number \<open>z\<close>, which lies in year \<open>y\<close>\<close>
  "MonthDateFromDay y z =
     month_date y [1, 2, 3, 4, 5, 6, 7, 8, 9, 10, 11, 12] (z - DayFromYear y)"

definition MakeDay :: "int \<Rightarrow> int \<Rightarrow> int \<Rightarrow> int" where
  \<comment> \<open>the day number of year \<open>y\<close>, month \<open>m\<close> (1 to 12), day \<open>d\<close>\<close>
  "MakeDay y m d = DayFromYear y + sum_list (map (DaysInMonth y) [1..m - 1]) + d - 1"

definition pad :: "nat \<Rightarrow> int \<Rightarrow> string" where
  \<comment> \<open>a non-negative integer in at least \<open>w\<close> digits, zero-padded on the left\<close>
  "pad w n = (let ds = digits_of n in replicate (w - length ds) CHR ''0'' @ ds)"

definition year_string :: "int \<Rightarrow> string" where
  \<comment> \<open>four digits for the years 0 to 9999, otherwise a sign and six digits\<close>
  "year_string y =
     (if 0 \<le> y \<and> y \<le> 9999 then pad 4 y
      else (if y < 0 then ''-'' else ''+'') @ pad 6 \<bar>y\<bar>)"

definition iso_string :: "int \<Rightarrow> string" where
  "iso_string t =
     (let z = t div msPerDay;
          y = YearFromDay z;
          (m, d) = MonthDateFromDay y z;
          r = t mod msPerDay
      in year_string y @ ''-'' @ pad 2 m @ ''-'' @ pad 2 d @ ''T''
         @ pad 2 (r div 3600000) @ '':'' @ pad 2 (r div 60000 mod 60) @ '':''
         @ pad 2 (r div 1000 mod 60) @ ''.'' @ pad 3 (r mod 1000) @ ''Z'')"

definition Date_toISOString :: "int option \<Rightarrow> string result" where
  \<comment> \<open>\<open>d.toISOString()\<close> throws a \<open>RangeError\<close> on an invalid date\<close>
  "Date_toISOString tv =
     (case tv of None \<Rightarrow> Inl (RangeError ''Invalid time value'')
      | Some t \<Rightarrow> Inr (iso_string t))"

definition substring :: "string \<Rightarrow> nat \<Rightarrow> nat \<Rightarrow> string" where
  "substring s i n = take n (drop i s)"

definition parse_iso_tail :: "int \<Rightarrow> string \<Rightarrow> int option" where
  \<comment> \<open>the part \<open>-MM-DDTHH:mm:ss.sssZ\<close> after the year\<close>
  "parse_iso_tail y r =
     (if length r = 20
         \<and> map (\<lambda>i. r ! i) [0, 3, 6, 9, 12, 15, 19] = ''--T::.Z''
         \<and> list_all is_digit (map (\<lambda>i. r ! i) [1, 2, 4, 5, 7, 8, 10, 11, 13, 14, 16, 17, 18])
      then
        (let mo = int_of_digits (substring r 1 2);
             dd = int_of_digits (substring r 4 2);
             hh = int_of_digits (substring r 7 2);
             mi = int_of_digits (substring r 10 2);
             ss = int_of_digits (substring r 13 2);
             ms = int_of_digits (substring r 16 3)
         in if 1 \<le> mo \<and> mo \<le> 12 \<and> 1 \<le> dd \<and> dd \<le> DaysInMonth y mo
               \<and> hh \<le> 23 \<and> mi \<le> 59 \<and> ss \<le> 59
            then Some (MakeDay y mo dd * msPerDay + hh * 3600000 + mi * 60000 + ss * 1000 + ms)
            else None)
      else None)"

definition parse_iso :: "string \<Rightarrow> int option" where
  \<comment> \<open>the format that \<open>toISOString\<close> writes: \<open>YYYY-MM-DDTHH:mm:ss.sssZ\<close>, or with an
      expanded year \<open>+YYYYYY\<close> or \<open>-YYYYYY\<close> (never \<open>-000000\<close>)\<close>
  "parse_iso s =
     (case s of [] \<Rightarrow> None
      | c # r \<Rightarrow>
          if c = CHR ''+'' \<or> c = CHR ''-'' then
            (if length r \<ge> 6 \<and> list_all is_digit (take 6 r) then
               (let y = int_of_digits (take 6 r)
                in if c = CHR ''-'' \<and> y = 0 then None
                   else parse_iso_tail (if c = CHR ''-'' then - y else y) (drop 6 r))
             else None)
          else if length s \<ge> 4 \<and> list_all is_digit (take 4 s) then
            parse_iso_tail (int_of_digits (take 4 s)) (drop 4 s)
          else None)"

definition Date_parse :: "(string \<Rightarrow> int option) \<Rightarrow> string \<Rightarrow> int option" where
  \<comment> \<open>\<open>new Date(s).getTime()\<close>. ECMAScript fixes the result for the format above; for
      every other string the engine may apply heuristics of its own (and reads a string
      without time zone in local time): that part is the parameter \<open>host\<close>.\<close>
  "Date_parse host s =
     (case (case parse_iso s of Some t \<Rightarrow> Some t | None \<Rightarrow> host s) of
        None \<Rightarrow> None
      | Some t \<Rightarrow> TimeClip t)"

definition Math_round :: "rat \<Rightarrow> int" where
  \<comment> \<open>the nearest integer, a tie going towards plus infinity\<close>
  "Math_round x = \<lfloor>x + 1 / 2\<rfloor>"

subsection \<open>Rounding to a double\<close>

text \<open>
  A double has 53 significant bits, and an operation returns the double nearest to the
  exact result, a tie going to the one whose last bit is zero. Around a number \<open>q\<close> with
  \<open>2^e \<le> |q| < 2^(e+1)\<close> the doubles are the multiples of \<open>2^(e-52)\<close>; from \<open>2^53\<close> to
  \<open>2^54\<close> they are the even integers.
\<close>

definition round_half_even :: "rat \<Rightarrow> int" where
  \<comment> \<open>the nearest integer, a tie going to the even one\<close>
  "round_half_even q =
     (let f = \<lfloor>q\<rfloor>; r = q - of_int f
      in if r < 1 / 2 then f else if 1 / 2 < r then f + 1 else if even f then f else f + 1)"

definition double_of_int54 :: "int \<Rightarrow> int" where
  \<comment> \<open>the double nearest to an integer below \<open>2^54\<close> in magnitude
      (\<open>9007199254740992\<close> is \<open>2^53\<close>)\<close>
  "double_of_int54 x =
     (if \<bar>x\<bar> \<le> 9007199254740992 then x else 2 * round_half_even (of_int x / 2))"

function ilog2 :: "int \<Rightarrow> nat" where
  \<comment> \<open>the binary logarithm of \<open>n \<ge> 1\<close>, rounded down\<close>
  "ilog2 n = (if n < 2 then 0 else Suc (ilog2 (n div 2)))"
  by pat_completeness auto
termination
  by (relation "measure nat") auto

declare ilog2.simps [simp del]

definition double_ulp :: "rat \<Rightarrow> rat" where
  \<comment> \<open>the distance \<open>2^(e-52)\<close> between the doubles around \<open>q\<close>, where
      \<open>2^e \<le> |q| < 2^(e+1)\<close>. The exponent is read off the integer part of
      \<open>|q| * 2^16\<close>, whose logarithm is \<open>e + 16\<close> when \<open>|q| \<ge> 2^-16\<close>: the numbers
      rounded in this program are quotients of an integer by \<open>60000\<close>, zero or at
      least \<open>1/60000\<close> in magnitude.\<close>
  "double_ulp q =
     (let l = ilog2 \<lfloor>\<bar>q\<bar> * 65536\<rfloor>
      in if l < 68 then 1 / 2 ^ (68 - l) else 2 ^ (l - 68))"

definition double_of_rat :: "rat \<Rightarrow> rat" where
  \<comment> \<open>the double nearest to \<open>q\<close>, for \<open>q = 0\<close> or \<open>2^-16 \<le> |q| < 2^1024\<close>: the nearest
      multiple of \<open>double_ulp q\<close>, a tie going to the even multiple\<close>
  "double_of_rat q = of_int (round_half_even (q / double_ulp q)) * double_ulp q"

definition String_of_JSON_integer :: "(int \<Rightarrow> string) \<Rightarrow> int \<Rightarrow> string" where
  \<comment> \<open>\<open>String(x)\<close> for the double \<open>x\<close> that \<open>response.json()\<close> makes of an integer \<open>n\<close>
      written in the answer. Below \<open>2^54\<close> in magnitude (\<open>18014398509481984\<close>) \<open>x\<close> is the
      double nearest to \<open>n\<close> and its string is its decimal expansion. From there on the
      string is the shortest sequence of digits that reads back as \<open>x\<close>, filled with zeros
      or (from \<open>1e21\<close>) in exponent notation: that part is the parameter \<open>host\<close>.\<close>
  "String_of_JSON_integer host n =
     (if \<bar>n\<bar> < 18014398509481984 then Number_toString (double_of_int54 n) else host n)"

subsection \<open>The regular expression of \<open>parseDate\<close>\<close>

text \<open>
  \<open>raw.match(/\/Date\((-?\d+)\)\//)\<close> looks for the leftmost position at which the pattern
  matches and returns its group 1. At one position the match is deterministic: after the
  literal \<open>/Date(\<close> a minus sign is taken when there is one (giving it up would leave
  \<open>\d+\<close> facing the minus sign), and \<open>\d+\<close> takes every digit (a shorter run would be
  followed by a digit, not by the closing parenthesis).
\<close>

fun strip_prefix :: "string \<Rightarrow> string \<Rightarrow> string option" where
  "strip_prefix [] s = Some s"
| "strip_prefix (p # ps) [] = None"
| "strip_prefix (p # ps) (c # cs) = (if p = c then strip_prefix ps cs else None)"

definition match_Date_at :: "string \<Rightarrow> string option" where
  \<comment> \<open>group 1 of a match that starts at the first character\<close>
  "match_Date_at s =
     (case strip_prefix ''/Date('' s of None \<Rightarrow> None
      | Some r \<Rightarrow>
          (let sgn = (case r of [] \<Rightarrow> [] | c # _ \<Rightarrow> if c = CHR ''-'' then ''-'' else []);
               r1 = drop (length sgn) r;
               ds = takeWhile is_digit r1
           in if ds = [] then None
              else (case strip_prefix '')/'' (dropWhile is_digit r1) of
                      None \<Rightarrow> None
                    | Some _ \<Rightarrow> Some (sgn @ ds))))"

fun match_Date :: "string \<Rightarrow> string option" where
  "match_Date [] = match_Date_at []"
| "match_Date (c # cs) =
     (case match_Date_at (c # cs) of Some g \<Rightarrow> Some g | None \<Rightarrow> match_Date cs)"

section \<open>The client: \<open>parseDate\<close> and the encoding of the departure\<close>

definition parseDate :: "string \<Rightarrow> string result" where
  \<comment> \<open>\<open>if (!match || !match[1]) return raw;\<close>
      \<open>return new Date(parseInt(match[1], 10)).toISOString();\<close>\<close>
  "parseDate raw =
     (case match_Date raw of None \<Rightarrow> Inr raw
      | Some g \<Rightarrow>
          if g = [] then Inr raw
          else Date_toISOString (Date_of_number (parseInt10 g)))"

definition encode_Date :: "int option \<Rightarrow> string" where
  \<comment> \<open>the encoder, written inline in \<open>searchConnections\<close>:
      \<open>dtDateTime: `/Date(${depMs})/`\<close>\<close>
  "encode_Date depMs = ''/Date('' @ template_number depMs @ '')/''"

section \<open>Data: the upstream's records and the domain model\<close>

text \<open>
  The interfaces of \<open>cd-api.ts\<close> and \<open>types.ts\<close>. A value that the code guards
  against being absent or \<open>null\<close> (\<open>result?.oConnInfo?.aoConnections\<close>, \<open>p.iPrice || 0\<close>,
  \<open>result || []\<close>, \<open>result?.[0]\<close>) has an option type; the others have the type that the
  interface declares. The wrapper object of a station item
  (\<open>{ oItem: { iListID, sName } }\<close>) is flattened to its only field. Domain fields whose
  names are shared between interfaces, or clash with a constant of the logic, carry the
  interface as a prefix (\<open>conn_id\<close> for \<open>Connection.id\<close>, \<open>leg_from\<close> for
  \<open>ConnectionLeg.from\<close>, \<open>loc_key\<close> for \<open>Location.key\<close>).
\<close>

record ListItem =
  iListID :: int
  sName :: string

record StationInfo =
  station_id :: int
  station_name :: string

record RawLeg =
  dtDateTime1 :: string
  dtDateTime2 :: string
  sStationName1 :: string
  sStationName2 :: string
  sType :: "string option"
  sNum1 :: "string option"
  sNum2 :: "string option"
  sNum3 :: "string option"

record RawConnection =
  iID :: int
  aoTrains :: "RawLeg list"

record ConnInfo =
  aoConnections :: "RawConnection list option"

record ConnectionInfo =
  iHandle :: int
  oConnInfo :: "ConnInfo option"

record PriceInfo =
  iPrice :: "int option"

record Location =
  loc_key :: string
  loc_name :: string
  loc_type :: string

record ConnectionLeg =
  leg_from :: string
  leg_to :: string
  leg_departure :: string
  leg_arrival :: string
  trainType :: "string option"
  trainNumber :: string

record Money =
  amount :: rat
  currency :: string

record Connection =
  conn_id :: string
  conn_departure :: string
  conn_arrival :: string
  duration :: "int option"
  transfers :: int
  legs :: "ConnectionLeg list"
  price :: "Money option"

record ConnectionSearchResult =
  handle :: "string option"
  connections :: "Connection list"

definition DEFAULT_CURRENCY :: string where
  "DEFAULT_CURRENCY = ''CZK''"

section \<open>The upstream and the requests sent to it\<close>

text \<open>
  \<open>postRequest(endpoint, body)\<close> sends one request and returns the field \<open>d\<close> of the
  answer, or throws (the network fails, the status is not OK, the body is not JSON). A
  request is recorded with the fields of its body that vary; the constant ones (\<open>iLang\<close>,
  \<open>sAppID\<close>, \<open>sUserDesc\<close>, \<open>iMaxCount: 8\<close>, the fare class and so on) are left out.
\<close>

record passenger =
  iPassengerId :: int
  iCount :: int
  iAge :: int

definition default_passenger :: passenger where
  \<comment> \<open>\<open>{ oPassenger: { iPassengerId: 5 }, iCount: 1, iAge: -1 }\<close>\<close>
  "default_passenger = \<lparr>iPassengerId = 5, iCount = 1, iAge = - 1\<rparr>"

datatype request =
    SearchGlobalListItemInfoExt string int
      \<comment> \<open>\<open>sMask\<close>, \<open>iMaxCount\<close>\<close>
  | CreateSession
  | SearchConnectionInfo1 string ListItem ListItem string "passenger list"
      \<comment> \<open>\<open>sSessionID\<close>, \<open>oFrom\<close>, \<open>oTo\<close>, \<open>dtDateTime\<close>, \<open>aoPassengers\<close>\<close>
  | GetConnectionsPrice string int "int list" "passenger list"
      \<comment> \<open>\<open>sSessionID\<close>, \<open>iHandle\<close>, \<open>aiConnID\<close>, \<open>aoPassengers\<close>\<close>

text \<open>
  The world outside the client: what the upstream answers to each request, which of two
  concurrent station lookups settles first, what the engine's \<open>Date\<close> constructor
  makes of a string that is not in the ISO format, and what its \<open>String\<close> makes of a
  number from \<open>2^54\<close> on.
\<close>

record world =
  on_SearchGlobalListItemInfoExt :: "string \<Rightarrow> int \<Rightarrow> ListItem list option result"
  on_CreateSession :: "string result"
  on_SearchConnectionInfo1 ::
    "string \<Rightarrow> ListItem \<Rightarrow> ListItem \<Rightarrow> string \<Rightarrow> passenger list \<Rightarrow> ConnectionInfo option result"
  on_GetConnectionsPrice ::
    "string \<Rightarrow> int \<Rightarrow> int list \<Rightarrow> passenger list \<Rightarrow> PriceInfo list option result"
  second_settles_first :: bool
  host_Date_parse :: "string \<Rightarrow> int option"
  host_Number_toString :: "int \<Rightarrow> string"

type_synonym 'a effect = "request list \<Rightarrow> 'a result \<times> request list"

definition post_SearchGlobalListItemInfoExt ::
    "world \<Rightarrow> string \<Rightarrow> int \<Rightarrow> ListItem list option effect" where
  "post_SearchGlobalListItemInfoExt w sMask n sent =
     (on_SearchGlobalListItemInfoExt w sMask n, sent @ [SearchGlobalListItemInfoExt sMask n])"

definition post_CreateSession :: "world \<Rightarrow> string effect" where
  "post_CreateSession w sent = (on_CreateSession w, sent @ [CreateSession])"

definition post_SearchConnectionInfo1 ::
    "world \<Rightarrow> string \<Rightarrow> ListItem \<Rightarrow> ListItem \<Rightarrow> string \<Rightarrow> passenger list
      \<Rightarrow> ConnectionInfo option effect" where
  "post_SearchConnectionInfo1 w sid f t dt ps sent =
     (on_SearchConnectionInfo1 w sid f t dt ps, sent @ [SearchConnectionInfo1 sid f t dt ps])"

definition post_GetConnectionsPrice ::
    "world \<Rightarrow> string \<Rightarrow> int \<Rightarrow> int list \<Rightarrow> passenger list \<Rightarrow> PriceInfo list option effect" where
  "post_GetConnectionsPrice w sid h ids ps sent =
     (on_GetConnectionsPrice w sid h ids ps, sent @ [GetConnectionsPrice sid h ids ps])"

subsection \<open>Platform operations used by the orchestration\<close>

definition Array_fill :: "rat \<Rightarrow> 'a \<Rightarrow> 'a list result" where
  \<comment> \<open>\<open>Array(n).fill(x)\<close>: \<open>Array(n)\<close> throws unless \<open>n\<close> is an integer from 0 to
      \<open>2^32 - 1\<close>\<close>
  "Array_fill n x =
     (if n = of_int \<lfloor>n\<rfloor> \<and> 0 \<le> n \<and> n < 4294967296 then Inr (replicate (nat \<lfloor>n\<rfloor>) x)
      else Inl (RangeError ''Invalid array length''))"

definition Promise_all2 :: "bool \<Rightarrow> 'a result \<Rightarrow> 'b result \<Rightarrow> ('a \<times> 'b) result" where
  \<comment> \<open>\<open>await Promise.all([p, q])\<close>: both values, or the first rejection to happen\<close>
  "Promise_all2 second_first p q =
     (case p of
        Inr a \<Rightarrow> (case q of Inr b \<Rightarrow> Inr (a, b) | Inl e \<Rightarrow> Inl e)
      | Inl e1 \<Rightarrow> (case q of Inr _ \<Rightarrow> Inl e1 | Inl e2 \<Rightarrow> Inl (if second_first then e2 else e1)))"

fun mapM_result :: "('a \<Rightarrow> 'b result) \<Rightarrow> 'a list \<Rightarrow> 'b list result" where
  \<comment> \<open>\<open>xs.map(f)\<close> for a callback that may throw: the first throw ends the map\<close>
  "mapM_result f [] = Inr []"
| "mapM_result f (x # xs) =
     (case f x of Inl e \<Rightarrow> Inl e
      | Inr y \<Rightarrow> (case mapM_result f xs of Inl e \<Rightarrow> Inl e | Inr ys \<Rightarrow> Inr (y # ys)))"

definition js_index :: "'a list \<Rightarrow> nat \<Rightarrow> 'a option" where
  \<comment> \<open>\<open>xs[i]\<close>: \<open>undefined\<close> beyond the end\<close>
  "js_index xs i = (if i < length xs then Some (xs ! i) else None)"

definition or_string :: "string option \<Rightarrow> string \<Rightarrow> string" where
  \<comment> \<open>\<open>x || d\<close> for a string \<open>x\<close> that may be \<open>undefined\<close>: the empty string is falsy too\<close>
  "or_string x d = (case x of None \<Rightarrow> d | Some s \<Rightarrow> if s = [] then d else s)"

fun join_space :: "string list \<Rightarrow> string" where
  \<comment> \<open>\<open>xs.join(' ')\<close>\<close>
  "join_space [] = []"
| "join_space [x] = x"
| "join_space (x # y # ys) = x @ '' '' @ join_space (y # ys)"

definition filter_Boolean :: "string option list \<Rightarrow> string list" where
  \<comment> \<open>\<open>xs.filter(Boolean)\<close>: drops \<open>undefined\<close> and the empty string\<close>
  "filter_Boolean xs = filter (\<lambda>s. s \<noteq> []) (List.map_filter (\<lambda>x. x) xs)"

section \<open>The client's operations\<close>

text \<open>
  An operation that sends requests takes the list of requests sent so far and returns its
  result (or the error it throws) with the list extended. The public operations start
  from the empty list.
\<close>

definition searchStation :: "world \<Rightarrow> string \<Rightarrow> StationInfo effect" where
  \<comment> \<open>\<open>const item = result?.[0]?.oItem;\<close>
      \<open>if (!item) throw new Error(`Station not found: ${mask}`);\<close>\<close>
  "searchStation w sMask sent =
     (case post_SearchGlobalListItemInfoExt w sMask 5 sent of
        (Inl e, sent') \<Rightarrow> (Inl e, sent')
      | (Inr result, sent') \<Rightarrow>
          (case result of
             None \<Rightarrow> (Inl (Error (''Station not found: '' @ sMask)), sent')
           | Some [] \<Rightarrow> (Inl (Error (''Station not found: '' @ sMask)), sent')
           | Some (item # _) \<Rightarrow>
               (Inr \<lparr>station_id = iListID item, station_name = sName item\<rparr>, sent')))"

definition createSession :: "world \<Rightarrow> string effect" where
  "createSession w sent = post_CreateSession w sent"

definition searchLocations ::
    "world \<Rightarrow> string \<Rightarrow> string option \<Rightarrow> Location list result \<times> request list" where
  \<comment> \<open>the second argument is the source's \<open>_type?: string\<close>\<close>
  "searchLocations w query unused_type =
     (case post_SearchGlobalListItemInfoExt w query 10 [] of
        (Inl e, sent) \<Rightarrow> (Inl e, sent)
      | (Inr result, sent) \<Rightarrow>
          (Inr (map (\<lambda>item. \<lparr>loc_key = String_of_JSON_integer (host_Number_toString w) (iListID item),
                               loc_name = sName item,
                               loc_type = ''station''\<rparr>)
                    (case result of None \<Rightarrow> [] | Some items \<Rightarrow> items)),
           sent))"

definition toLeg :: "RawLeg \<Rightarrow> ConnectionLeg result" where
  \<comment> \<open>the callback of \<open>conn.aoTrains.map\<close>\<close>
  "toLeg leg =
     (case parseDate (dtDateTime1 leg) of
        Inl e \<Rightarrow> Inl e
      | Inr dep \<Rightarrow>
          (case parseDate (dtDateTime2 leg) of
             Inl e \<Rightarrow> Inl e
           | Inr arr \<Rightarrow>
               Inr \<lparr>leg_from = sStationName1 leg,
                    leg_to = sStationName2 leg,
                    leg_departure = dep,
                    leg_arrival = arr,
                    trainType = sType leg,
                    trainNumber = join_space (filter_Boolean [sNum1 leg, sNum2 leg, sNum3 leg])\<rparr>))"

definition durationMinutes :: "int option \<Rightarrow> int option \<Rightarrow> int option" where
  \<comment> \<open>\<open>Math.round((arrTime.getTime() - depTime.getTime()) / 60000)\<close>, \<open>NaN\<close> when a date
      is invalid. The difference and the quotient are those of doubles: each is the
      double nearest to the exact result.\<close>
  "durationMinutes arrTime depTime =
     (case arrTime of None \<Rightarrow> None
      | Some a \<Rightarrow>
          (case depTime of None \<Rightarrow> None
           | Some d \<Rightarrow>
               Some (Math_round (double_of_rat (of_int (double_of_int54 (a - d)) / 60000)))))"

definition toConnection ::
    "world \<Rightarrow> string \<Rightarrow> rat list \<Rightarrow> nat \<Rightarrow> RawConnection \<Rightarrow> Connection result" where
  \<comment> \<open>the callback \<open>(conn, idx) => ...\<close> of \<open>aoConnections.map\<close>\<close>
  "toConnection w departure prices idx conn =
     (case mapM_result toLeg (aoTrains conn) of
        Inl e \<Rightarrow> Inl e
      | Inr ls \<Rightarrow>
          (let firstLeg = js_index ls 0;
               lastLeg = (if ls = [] then None else js_index ls (length ls - 1));
               dep = or_string (map_option leg_departure firstLeg) departure;
               arr = or_string (map_option leg_arrival lastLeg) departure;
               depTime = Date_parse (host_Date_parse w) dep;
               arrTime = Date_parse (host_Date_parse w) arr
           in Inr \<lparr>conn_id = Number_toString (iID conn),
                   conn_departure = dep,
                   conn_arrival = arr,
                   duration = durationMinutes arrTime depTime,
                   transfers = int (length (aoTrains conn)) - 1,
                   legs = ls,
                   price = (case js_index prices idx of
                              None \<Rightarrow> None
                            | Some p \<Rightarrow>
                                if p > 0 then Some \<lparr>amount = p, currency = DEFAULT_CURRENCY\<rparr>
                                else None)\<rparr>))"

definition prices_of_response :: "PriceInfo list option \<Rightarrow> rat list" where
  \<comment> \<open>\<open>(priceResult || []).map(p => (p.iPrice || 0) / 100)\<close>\<close>
  "prices_of_response priceResult =
     map (\<lambda>p. of_int (case iPrice p of None \<Rightarrow> 0 | Some v \<Rightarrow> v) / 100)
         (case priceResult of None \<Rightarrow> [] | Some ps \<Rightarrow> ps)"

definition lookup_prices ::
    "world \<Rightarrow> string \<Rightarrow> int \<Rightarrow> rat \<Rightarrow> RawConnection list \<Rightarrow> request list
      \<Rightarrow> rat list \<times> request list" where
  \<comment> \<open>the \<open>try { ... } catch { ... }\<close> block that assigns \<open>prices\<close>: whatever is thrown
      inside it is caught and replaced by one zero for each connection\<close>
  "lookup_prices w sessionID h passengers conns sent =
     (case Array_fill passengers default_passenger of
        Inl e \<Rightarrow> (map (\<lambda>_. 0) conns, sent)
      | Inr aoPassengers \<Rightarrow>
          (case post_GetConnectionsPrice w sessionID h (map iID conns) aoPassengers sent of
             (Inl e, sent') \<Rightarrow> (map (\<lambda>_. 0) conns, sent')
           | (Inr priceResult, sent') \<Rightarrow> (prices_of_response priceResult, sent')))"

definition guarded_aoConnections :: "ConnectionInfo option \<Rightarrow> (int \<times> RawConnection list) option" where
  \<comment> \<open>\<open>result?.oConnInfo?.aoConnections\<close> when it is truthy (an empty array is), together
      with \<open>result.iHandle\<close>\<close>
  "guarded_aoConnections result =
     (case result of None \<Rightarrow> None
      | Some r \<Rightarrow>
          (case oConnInfo r of None \<Rightarrow> None
           | Some ci \<Rightarrow>
               (case aoConnections ci of None \<Rightarrow> None
                | Some conns \<Rightarrow> Some (iHandle r, conns))))"

definition searchConnections ::
    "world \<Rightarrow> string \<Rightarrow> string \<Rightarrow> string \<Rightarrow> rat
      \<Rightarrow> ConnectionSearchResult result \<times> request list" where
  "searchConnections w from to departure passengers =
     (let (rf, sent1) = searchStation w from [];
          (rt, sent2) = searchStation w to sent1
      in case Promise_all2 (second_settles_first w) rf rt of
           Inl e \<Rightarrow> (Inl e, sent2)
         | Inr (fromStation, toStation) \<Rightarrow>
             (case createSession w sent2 of
                (Inl e, sent3) \<Rightarrow> (Inl e, sent3)
              | (Inr sessionID, sent3) \<Rightarrow>
                  (let depMs = Date_parse (host_Date_parse w) departure
                   in case Array_fill passengers default_passenger of
                        Inl e \<Rightarrow> (Inl e, sent3)
                      | Inr aoPassengers \<Rightarrow>
                          (case post_SearchConnectionInfo1 w sessionID
                                  \<lparr>iListID = station_id fromStation, sName = station_name fromStation\<rparr>
                                  \<lparr>iListID = station_id toStation, sName = station_name toStation\<rparr>
                                  (encode_Date depMs) aoPassengers sent3 of
                             (Inl e, sent4) \<Rightarrow> (Inl e, sent4)
                           | (Inr result, sent4) \<Rightarrow>
                               (case guarded_aoConnections result of
                                  None \<Rightarrow> (Inr \<lparr>handle = None, connections = []\<rparr>, sent4)
                                | Some (h, conns) \<Rightarrow>
                                    (let (prices, sent5) =
                                           lookup_prices w sessionID h passengers conns sent4
                                     in case mapM_result
                                               (\<lambda>(idx, conn). toConnection w departure prices idx conn)
                                               (enumerate 0 conns) of
                                          Inl e \<Rightarrow> (Inl e, sent5)
                                        | Inr cs \<Rightarrow>
                                            (Inr \<lparr>handle = Some (Number_toString h),
                                                  connections = cs\<rparr>,
                                             sent5)))))))"

section \<open>Names for parts of \<open>searchConnections\<close>, used in the proofs\<close>

text \<open>
  \<open>prices_used\<close> is the value of \<open>prices\<close> after the \<open>try\<close> block, given the answer to the
  price request; \<open>merged\<close> is the part from \<open>// Transform to our format\<close> to the final
  \<open>return\<close>; \<open>decodable\<close> says that \<open>parseDate\<close> throws on no timestamp of the raw
  connections.
\<close>

definition merged ::
    "world \<Rightarrow> string \<Rightarrow> int \<Rightarrow> rat list \<Rightarrow> RawConnection list \<Rightarrow> ConnectionSearchResult result" where
  "merged w departure h prices conns =
     (case mapM_result (\<lambda>(idx, conn). toConnection w departure prices idx conn) (enumerate 0 conns) of
        Inl e \<Rightarrow> Inl e
      | Inr cs \<Rightarrow> Inr \<lparr>handle = Some (Number_toString h), connections = cs\<rparr>)"

definition prices_used :: "PriceInfo list option result \<Rightarrow> RawConnection list \<Rightarrow> rat list" where
  "prices_used answer conns =
     (case answer of Inl e \<Rightarrow> map (\<lambda>_. 0) conns | Inr priceResult \<Rightarrow> prices_of_response priceResult)"

definition decodable :: "RawConnection list \<Rightarrow> bool" where
  "decodable conns =
     list_all (\<lambda>conn. list_all (\<lambda>leg. \<not> isl (parseDate (dtDateTime1 leg))
                                     \<and> \<not> isl (parseDate (dtDateTime2 leg)))
                          (aoTrains conn)) conns"

section \<open>A stub upstream\<close>

text \<open>
  Concrete worlds on which the operations are run: an upstream that knows two stations,
  opens the session \<open>s1\<close>, and answers the search and the price request as given. No run
  below asks the engine for the string of a number from \<open>2^54\<close> on.
\<close>

definition known_stations :: "string \<Rightarrow> ListItem list option result" where
  "known_stations q =
     (if q = ''Praha'' then Inr (Some [\<lparr>iListID = 5457076, sName = ''Praha hl.n.''\<rparr>])
      else if q = ''Brno'' then Inr (Some [\<lparr>iListID = 5453179, sName = ''Brno hl.n.''\<rparr>])
      else if q = ''Timeout'' then Inl (Error ''API request failed: 504 Gateway Timeout - '')
      else Inr (Some []))"

definition stub_world :: "ConnectionInfo option result \<Rightarrow> PriceInfo list option result \<Rightarrow> world" where
  "stub_world primary priced =
     \<lparr>on_SearchGlobalListItemInfoExt = (\<lambda>q n. known_stations q),
      on_CreateSession = Inr ''s1'',
      on_SearchConnectionInfo1 = (\<lambda>sid f t dt ps. primary),
      on_GetConnectionsPrice = (\<lambda>sid h ids ps. priced),
      second_settles_first = False,
      host_Date_parse = (\<lambda>s. None),
      host_Number_toString = (\<lambda>n. [])\<rparr>"

definition second_first_world ::
    "ConnectionInfo option result \<Rightarrow> PriceInfo list option result \<Rightarrow> world" where
  \<comment> \<open>the same upstream, with the lookup of the destination settling before that of the
      origin\<close>
  "second_first_world primary priced = (stub_world primary priced)\<lparr>second_settles_first := True\<rparr>"

definition far_station_world :: world where
  \<comment> \<open>an upstream that answers every name search with one station, numbered \<open>2^53 + 1\<close>\<close>
  "far_station_world =
     (stub_world (Inr None) (Inr None))
       \<lparr>on_SearchGlobalListItemInfoExt :=
          (\<lambda>q n. Inr (Some [\<lparr>iListID = 9007199254740993, sName = ''Far''\<rparr>]))\<rparr>"

definition raw_leg :: "string \<Rightarrow> string \<Rightarrow> RawLeg" where
  "raw_leg dep arr =
     \<lparr>dtDateTime1 = dep, dtDateTime2 = arr,
      sStationName1 = ''Praha hl.n.'', sStationName2 = ''Brno hl.n.'',
      sType = Some ''rj'', sNum1 = Some ''rj'', sNum2 = Some ''71'', sNum3 = None\<rparr>"

definition found :: "RawConnection list \<Rightarrow> ConnectionInfo option result" where
  "found conns = Inr (Some \<lparr>iHandle = 7, oConnInfo = Some \<lparr>aoConnections = Some conns\<rparr>\<rparr>)"

definition three_connections :: "RawConnection list" where
  "three_connections =
     [\<lparr>iID = 1, aoTrains = [raw_leg ''/Date(1765794960000)/'' ''/Date(1765804380000)/'']\<rparr>,
      \<lparr>iID = 2, aoTrains = [raw_leg ''/Date(1765796400000)/'' ''/Date(1765806600000)/'']\<rparr>,
      \<lparr>iID = 3, aoTrains = [raw_leg ''/Date(1765798200000)/'' ''/Date(1765803600000)/'',
                             raw_leg ''/Date(1765804200000)/'' ''/Date(1765809000000)/'']\<rparr>]"

definition domain_leg :: "string \<Rightarrow> string \<Rightarrow> ConnectionLeg" where
  "domain_leg dep arr =
     \<lparr>leg_from = ''Praha hl.n.'', leg_to = ''Brno hl.n.'', leg_departure = dep, leg_arrival = arr,
      trainType = Some ''rj'', trainNumber = ''rj 71''\<rparr>"

definition three_domain_connections :: "Money option list \<Rightarrow> Connection list" where
  "three_domain_connections ps =
     [\<lparr>conn_id = ''1'', conn_departure = ''2025-12-15T10:36:00.000Z'',
       conn_arrival = ''2025-12-15T13:13:00.000Z'', duration = Some 157, transfers = 0,
       legs = [domain_leg ''2025-12-15T10:36:00.000Z'' ''2025-12-15T13:13:00.000Z''],
       price = ps ! 0\<rparr>,
      \<lparr>conn_id = ''2'', conn_departure = ''2025-12-15T11:00:00.000Z'',
       conn_arrival = ''2025-12-15T13:50:00.000Z'', duration = Some 170, transfers = 0,
       legs = [domain_leg ''2025-12-15T11:00:00.000Z'' ''2025-12-15T13:50:00.000Z''],
       price = ps ! 1\<rparr>,
      \<lparr>conn_id = ''3'', conn_departure = ''2025-12-15T11:30:00.000Z'',
       conn_arrival = ''2025-12-15T14:30:00.000Z'', duration = Some 180, transfers = 1,
       legs = [domain_leg ''2025-12-15T11:30:00.000Z'' ''2025-12-15T13:00:00.000Z'',
               domain_leg ''2025-12-15T13:10:00.000Z'' ''2025-12-15T14:30:00.000Z''],
       price = ps ! 2\<rparr>]"

definition requests_until_search :: "request list" where
  "requests_until_search =
     [SearchGlobalListItemInfoExt ''Praha'' 5, SearchGlobalListItemInfoExt ''Brno'' 5, CreateSession,
      SearchConnectionInfo1 ''s1'' \<lparr>iListID = 5457076, sName = ''Praha hl.n.''\<rparr>
        \<lparr>iListID = 5453179, sName = ''Brno hl.n.''\<rparr> ''/Date(1765792800000)/'' [default_passenger]]"

section \<open>Properties of the platform model\<close>

subsection \<open>Decimal digits\<close>

lemma digit_char_props:
  assumes "d < 10"
  shows "is_digit (digit_char d)" and "digit_val (digit_char d) = int d"
proof -
  from assms have "d \<in> {0, 1, 2, 3, 4, 5, 6, 7, 8, 9}" by auto
  then show "is_digit (digit_char d)" and "digit_val (digit_char d) = int d"
    unfolding digit_char_def is_digit_def digit_val_def by auto
qed

lemma digits_of_nonempty: "digits_of n \<noteq> []"
  by (subst digits_of.simps) simp

lemma digits_of_all_digits: "0 \<le> n \<Longrightarrow> list_all is_digit (digits_of n)"
proof (induction n rule: digits_of.induct)
  case (1 n)
  show ?case
  proof (cases "n < 10")
    case True
    with "1.prems" have "nat n < 10" by simp
    then show ?thesis using True by (subst digits_of.simps) (simp add: digit_char_props)
  next
    case False
    then have "list_all is_digit (digits_of (n div 10))" using "1.IH" by simp
    moreover have "nat (n mod 10) < 10" by simp
    ultimately show ?thesis using False
      by (subst digits_of.simps) (simp add: digit_char_props)
  qed
qed

lemma int_of_digits_snoc: "int_of_digits (xs @ [c]) = 10 * int_of_digits xs + digit_val c"
  by (simp add: int_of_digits_def)

lemma int_of_digits_of: "0 \<le> n \<Longrightarrow> int_of_digits (digits_of n) = n"
proof (induction n rule: digits_of.induct)
  case (1 n)
  show ?case
  proof (cases "n < 10")
    case True
    with "1.prems" have "nat n < 10" by simp
    then have "digit_val (digit_char (nat n)) = int (nat n)" by (rule digit_char_props)
    then show ?thesis using True "1.prems"
      by (subst digits_of.simps) (simp add: int_of_digits_def)
  next
    case False
    then have ih: "int_of_digits (digits_of (n div 10)) = n div 10" using "1.IH" by simp
    have "nat (n mod 10) < 10" by simp
    then have "digit_val (digit_char (nat (n mod 10))) = int (nat (n mod 10))"
      by (rule digit_char_props)
    then show ?thesis using False ih
      by (subst digits_of.simps) (simp add: int_of_digits_snoc)
  qed
qed

lemma not_digit_minus: "\<not> is_digit CHR ''-''" and not_digit_paren: "\<not> is_digit CHR '')''"
  by (simp_all add: is_digit_def)

lemma takeWhile_digits_stop:
  "list_all is_digit ds \<Longrightarrow> \<not> is_digit c \<Longrightarrow> takeWhile is_digit (ds @ c # r) = ds"
  by (induction ds) simp_all

lemma dropWhile_digits_stop:
  "list_all is_digit ds \<Longrightarrow> \<not> is_digit c \<Longrightarrow> dropWhile is_digit (ds @ c # r) = c # r"
  by (induction ds) simp_all

lemma takeWhile_digits_all: "list_all is_digit ds \<Longrightarrow> takeWhile is_digit ds = ds"
  by (induction ds) simp_all

lemma match_Date_at_digits:
  assumes "list_all is_digit ds" and "ds \<noteq> []"
  shows "match_Date_at (''/Date('' @ ds @ '')/'') = Some ds"
    and "match_Date_at (''/Date(-'' @ ds @ '')/'') = Some (''-'' @ ds)"
proof -
  from assms obtain d ds' where ds: "ds = d # ds'" by (cases ds) auto
  with assms have d: "is_digit d" by simp
  then have "d \<noteq> CHR ''-''" using not_digit_minus by auto
  then show "match_Date_at (''/Date('' @ ds @ '')/'') = Some ds"
    using assms takeWhile_digits_stop [OF assms(1) not_digit_paren, of "''/''"]
      dropWhile_digits_stop [OF assms(1) not_digit_paren, of "''/''"]
    by (simp add: match_Date_at_def ds)
  show "match_Date_at (''/Date(-'' @ ds @ '')/'') = Some (''-'' @ ds)"
    using assms takeWhile_digits_stop [OF assms(1) not_digit_paren, of "''/''"]
      dropWhile_digits_stop [OF assms(1) not_digit_paren, of "''/''"]
    by (simp add: match_Date_at_def)
qed

lemma match_Date_encoded: "match_Date (encode_Date (Some n)) = Some (Number_toString n)"
proof (cases "n < 0")
  case True
  then have "match_Date_at (''/Date(-'' @ digits_of (- n) @ '')/'') = Some (''-'' @ digits_of (- n))"
    by (intro match_Date_at_digits digits_of_all_digits digits_of_nonempty) simp
  then show ?thesis using True
    by (simp add: encode_Date_def template_number_def Number_toString_def)
next
  case False
  then have "match_Date_at (''/Date('' @ digits_of n @ '')/'') = Some (digits_of n)"
    by (intro match_Date_at_digits digits_of_all_digits digits_of_nonempty) simp
  then show ?thesis using False
    by (simp add: encode_Date_def template_number_def Number_toString_def)
qed

lemma parseInt10_digits:
  assumes "list_all is_digit ds" and "ds \<noteq> []"
  shows "parseInt10 ds = Some (int_of_digits ds)"
    and "parseInt10 (CHR ''-'' # ds) = Some (- int_of_digits ds)"
proof -
  from assms obtain d ds' where ds: "ds = d # ds'" by (cases ds) auto
  with assms have "is_digit d" by simp
  then have "d \<noteq> CHR ''-''" "d \<noteq> CHR ''+''" by (auto simp: is_digit_def)
  moreover have tw: "takeWhile is_digit ds = ds" using assms(1) by (rule takeWhile_digits_all)
  ultimately show "parseInt10 ds = Some (int_of_digits ds)"
    using assms(2) tw [unfolded ds] unfolding parseInt10_def ds by (simp add: Let_def)
  show "parseInt10 (CHR ''-'' # ds) = Some (- int_of_digits ds)"
    using assms(2) unfolding parseInt10_def by (simp add: Let_def tw)
qed

lemma parseInt10_Number_toString: "parseInt10 (Number_toString n) = Some n"
proof (cases "n < 0")
  case True
  then have "list_all is_digit (digits_of (- n))" by (intro digits_of_all_digits) simp
  then have "parseInt10 (CHR ''-'' # digits_of (- n)) = Some (- int_of_digits (digits_of (- n)))"
    using digits_of_nonempty by (rule parseInt10_digits)
  then show ?thesis using True int_of_digits_of [of "- n"]
    by (simp add: Number_toString_def)
next
  case False
  then have "list_all is_digit (digits_of n)" by (intro digits_of_all_digits) simp
  then have "parseInt10 (digits_of n) = Some (int_of_digits (digits_of n))"
    using digits_of_nonempty by (rule parseInt10_digits)
  then show ?thesis using False int_of_digits_of [of n]
    by (simp add: Number_toString_def)
qed

lemma Number_toString_nonempty: "Number_toString n \<noteq> []"
  by (simp add: Number_toString_def digits_of_nonempty)

subsection \<open>The calendar\<close>

text \<open>
  \<open>YearFromDay\<close> is the year of ECMAScript's \<open>YearFromTime\<close>: the year whose first day is
  at or before the given day and whose successor starts after it. Month and day of the
  month are valid, and \<open>MakeDay\<close> leads back to the day number.
\<close>

lemma div_bounds:
  fixes x c :: int
  assumes "0 < c"
  shows "c * (x div c) \<le> x" and "x < c * (x div c) + c"
proof -
  have "x = c * (x div c) + x mod c" by simp
  moreover have "0 \<le> x mod c" "x mod c < c" using assms by simp_all
  ultimately show "c * (x div c) \<le> x" and "x < c * (x div c) + c" by linarith+
qed

lemma div_succ:
  fixes x c :: int
  assumes "0 < c"
  shows "(x + 1) div c = x div c + (if (x + 1) mod c = 0 then 1 else 0)"
proof -
  define q r where "q = x div c" and "r = x mod c"
  have x: "x = c * q + r" and r: "0 \<le> r" "r < c"
    using assms by (simp_all add: q_def r_def)
  show ?thesis
  proof (cases "r + 1 = c")
    case True
    then have e: "x + 1 = c * (q + 1) + 0" using x by (simp add: algebra_simps)
    have "(x + 1) div c = q + 1" using int_div_pos_eq [OF e] assms by simp
    moreover have "(x + 1) mod c = 0" using int_mod_pos_eq [OF e] assms by simp
    ultimately show ?thesis by (simp add: q_def)
  next
    case False
    with r have r1: "0 \<le> r + 1" "r + 1 < c" by linarith+
    have e: "x + 1 = c * q + (r + 1)" using x by simp
    have "(x + 1) div c = q" using e r1 by (rule int_div_pos_eq)
    moreover have "(x + 1) mod c = r + 1" using e r1 by (rule int_mod_pos_eq)
    ultimately show ?thesis using r by (simp add: q_def)
  qed
qed

lemma mod_shift_4: "((y::int) - 1969 + 1) mod 4 = 0 \<longleftrightarrow> y mod 4 = 0"
proof -
  have "y - 1969 + 1 = y + 4 * (- 492)" by simp
  then show ?thesis by (simp only: mod_mult_self2)
qed

lemma mod_shift_100: "((y::int) - 1901 + 1) mod 100 = 0 \<longleftrightarrow> y mod 100 = 0"
proof -
  have "y - 1901 + 1 = y + 100 * (- 19)" by simp
  then show ?thesis by (simp only: mod_mult_self2)
qed

lemma mod_shift_400: "((y::int) - 1601 + 1) mod 400 = 0 \<longleftrightarrow> y mod 400 = 0"
proof -
  have "y - 1601 + 1 = y + 400 * (- 4)" by simp
  then show ?thesis by (simp only: mod_mult_self2)
qed

lemma mod_400_imp:
  assumes "(y::int) mod 400 = 0"
  shows "y mod 100 = 0 \<and> y mod 4 = 0"
proof -
  from assms have "400 dvd y" by (simp add: mod_eq_0_iff_dvd)
  moreover have "(100::int) dvd 400" "(4::int) dvd 400" by simp_all
  ultimately have "100 dvd y" "4 dvd y" by (blast intro: dvd_trans)+
  then show ?thesis by (simp add: mod_eq_0_iff_dvd)
qed

lemma mod_100_imp:
  assumes "(y::int) mod 100 = 0"
  shows "y mod 4 = 0"
proof -
  from assms have "100 dvd y" by (simp add: mod_eq_0_iff_dvd)
  moreover have "(4::int) dvd 100" by simp
  ultimately have "4 dvd y" by (blast intro: dvd_trans)
  then show ?thesis by (simp add: mod_eq_0_iff_dvd)
qed

lemma DayFromYear_Suc: "DayFromYear (y + 1) = DayFromYear y + (if InLeapYear y then 366 else 365)"
proof -
  have a: "(y + 1 - 1969) div 4 = (y - 1969) div 4 + (if y mod 4 = 0 then 1 else 0)"
    using div_succ [of 4 "y - 1969"] mod_shift_4 [of y] by (simp add: algebra_simps)
  have b: "(y + 1 - 1901) div 100 = (y - 1901) div 100 + (if y mod 100 = 0 then 1 else 0)"
    using div_succ [of 100 "y - 1901"] mod_shift_100 [of y] by (simp add: algebra_simps)
  have c: "(y + 1 - 1601) div 400 = (y - 1601) div 400 + (if y mod 400 = 0 then 1 else 0)"
    using div_succ [of 400 "y - 1601"] mod_shift_400 [of y] by (simp add: algebra_simps)
  show ?thesis
    unfolding DayFromYear_def InLeapYear_def a b c
    using mod_400_imp [of y] mod_100_imp [of y] by auto
qed

lemma year_window:
  fixes z :: int
  defines "y0 \<equiv> 1970 + (400 * z) div 146097"
  shows "DayFromYear (y0 - 1) \<le> z" and "z < DayFromYear (y0 + 2)"
proof -
  define k where "k = (400 * z) div 146097"
  have k: "146097 * k \<le> 400 * z" "400 * z < 146097 * k + 146097"
    unfolding k_def using div_bounds [of 146097 "400 * z"] by simp_all
  have y0: "y0 = 1970 + k" by (simp add: y0_def k_def)
  define a b c where "a = (k - 1 - 1969 + 1970) div 4"
    and "b = (k - 1 - 1901 + 1970) div 100" and "c = (k - 1 - 1601 + 1970) div 400"
  have a: "4 * a \<le> k" "k < 4 * a + 4"
    unfolding a_def using div_bounds [of 4 "k - 1 - 1969 + 1970"] by simp_all
  have b: "100 * b \<le> k + 68" "k + 68 < 100 * b + 100"
    unfolding b_def using div_bounds [of 100 "k - 1 - 1901 + 1970"] by simp_all
  have c: "400 * c \<le> k + 368" "k + 368 < 400 * c + 400"
    unfolding c_def using div_bounds [of 400 "k - 1 - 1601 + 1970"] by simp_all
  have "DayFromYear (y0 - 1) = 365 * (k - 1) + a - b + c"
    by (simp add: DayFromYear_def y0 a_def b_def c_def algebra_simps)
  moreover have "400 * (365 * (k - 1) + a - b + c) \<le> 146097 * k"
    using a b c by (simp add: algebra_simps)
  ultimately have "400 * DayFromYear (y0 - 1) \<le> 400 * z"
    using k by (simp add: algebra_simps)
  then show "DayFromYear (y0 - 1) \<le> z"
    by simp
  define a' b' c' where "a' = (k + 3) div 4"
    and "b' = (k + 71) div 100" and "c' = (k + 371) div 400"
  have a': "4 * a' \<le> k + 3" "k + 3 < 4 * a' + 4"
    unfolding a'_def using div_bounds [of 4 "k + 3"] by simp_all
  have b': "100 * b' \<le> k + 71" "k + 71 < 100 * b' + 100"
    unfolding b'_def using div_bounds [of 100 "k + 71"] by simp_all
  have c': "400 * c' \<le> k + 371" "k + 371 < 400 * c' + 400"
    unfolding c'_def using div_bounds [of 400 "k + 371"] by simp_all
  have "DayFromYear (y0 + 2) = 365 * (k + 2) + a' - b' + c'"
    by (simp add: DayFromYear_def y0 a'_def b'_def c'_def algebra_simps)
  moreover have "146097 * k + 146097 \<le> 400 * (365 * (k + 2) + a' - b' + c')"
    using a' b' c' by (simp add: algebra_simps)
  ultimately have "400 * z < 400 * DayFromYear (y0 + 2)"
    using k by (simp add: algebra_simps)
  then show "z < DayFromYear (y0 + 2)"
    by simp
qed

lemma year_bracket:
  "DayFromYear (YearFromDay z) \<le> z \<and> z < DayFromYear (YearFromDay z + 1)"
proof -
  define y0 where "y0 = 1970 + (400 * z) div 146097"
  have w: "DayFromYear (y0 - 1) \<le> z" "z < DayFromYear (y0 + 2)"
    unfolding y0_def using year_window [of z] by simp_all
  have y: "YearFromDay z = (if DayFromYear (y0 + 1) \<le> z then y0 + 1
         else if z < DayFromYear y0 then y0 - 1 else y0)"
    by (simp add: YearFromDay_def y0_def Let_def)
  consider "DayFromYear (y0 + 1) \<le> z"
    | "\<not> DayFromYear (y0 + 1) \<le> z" "z < DayFromYear y0"
    | "\<not> DayFromYear (y0 + 1) \<le> z" "\<not> z < DayFromYear y0" by blast
  then show ?thesis
  proof cases
    case 1
    have "y0 + 1 + 1 = y0 + 2" by simp
    with w(2) have "z < DayFromYear (y0 + 1 + 1)" by (simp only:)
    with 1 y show ?thesis by (simp only: if_True)
  next
    case 2
    then show ?thesis using w y by simp
  next
    case 3
    then show ?thesis using y by simp
  qed
qed


lemma days_in_year:
  "sum_list (map (DaysInMonth y) [1, 2, 3, 4, 5, 6, 7, 8, 9, 10, 11, 12])
     = (if InLeapYear y then 366 else 365)"
  by (simp add: DaysInMonth_def)

lemma month_date_correct:
  assumes "0 \<le> r" and "r < sum_list (map (DaysInMonth y) ms)"
  shows "\<exists>pre m post. ms = pre @ m # post
           \<and> fst (month_date y ms r) = m
           \<and> 1 \<le> snd (month_date y ms r)
           \<and> snd (month_date y ms r) \<le> DaysInMonth y m
           \<and> r = sum_list (map (DaysInMonth y) pre) + snd (month_date y ms r) - 1"
  using assms
proof (induction ms arbitrary: r)
  case Nil
  then show ?case by simp
next
  case (Cons m ms)
  show ?case
  proof (cases "r < DaysInMonth y m")
    case True
    with Cons.prems have "m # ms = [] @ m # ms \<and> fst (month_date y (m # ms) r) = m
           \<and> 1 \<le> snd (month_date y (m # ms) r)
           \<and> snd (month_date y (m # ms) r) \<le> DaysInMonth y m
           \<and> r = sum_list (map (DaysInMonth y) []) + snd (month_date y (m # ms) r) - 1"
      by simp
    then show ?thesis by blast
  next
    case False
    with Cons.prems have "0 \<le> r - DaysInMonth y m"
      and "r - DaysInMonth y m < sum_list (map (DaysInMonth y) ms)" by simp_all
    from Cons.IH [OF this] obtain pre m' post where
      "ms = pre @ m' # post" "fst (month_date y ms (r - DaysInMonth y m)) = m'"
      "1 \<le> snd (month_date y ms (r - DaysInMonth y m))"
      "snd (month_date y ms (r - DaysInMonth y m)) \<le> DaysInMonth y m'"
      "r - DaysInMonth y m = sum_list (map (DaysInMonth y) pre) + snd (month_date y ms (r - DaysInMonth y m)) - 1"
      by blast
    with False have "m # ms = (m # pre) @ m' # post \<and> fst (month_date y (m # ms) r) = m'
           \<and> 1 \<le> snd (month_date y (m # ms) r)
           \<and> snd (month_date y (m # ms) r) \<le> DaysInMonth y m'
           \<and> r = sum_list (map (DaysInMonth y) (m # pre)) + snd (month_date y (m # ms) r) - 1"
      by simp
    then show ?thesis by blast
  qed
qed

lemma split_unique:
  "xs @ a # ys = xs' @ a # ys' \<Longrightarrow> a \<notin> set xs \<Longrightarrow> a \<notin> set xs' \<Longrightarrow> xs = xs'"
proof (induction xs arbitrary: xs')
  case Nil
  then show ?case by (cases xs') auto
next
  case (Cons x xs)
  then show ?case by (cases xs') auto
qed

lemma upto_split_at:
  assumes "[1, 2, 3, 4, 5, 6, 7, 8, 9, 10, 11, 12] = pre @ m # post"
  shows "1 \<le> m \<and> m \<le> 12 \<and> pre = [1..m - 1]"
proof -
  have u: "[1, 2, 3, 4, 5, 6, 7, 8, 9, 10, 11, 12] = [1..(12::int)]"
    by (simp add: upto.simps)
  with assms have e: "[1..12] = pre @ m # post" by simp
  then have "m \<in> set [1..12]" by (metis in_set_conv_decomp)
  then have m: "1 \<le> m" "m \<le> 12" by simp_all
  then have "[1..12] = [1..m - 1] @ m # [m + 1..12]"
    using upto_split3 [of 1 m 12] by simp
  with e have "pre @ m # post = [1..m - 1] @ m # [m + 1..12]" by simp
  moreover have "m \<notin> set pre"
  proof
    assume "m \<in> set pre"
    then have "\<not> distinct (pre @ m # post)" by simp
    with e show False by (metis distinct_upto)
  qed
  moreover have "m \<notin> set [1..m - 1]" by simp
  ultimately have "pre = [1..m - 1]"
    by (rule split_unique)
  with m show ?thesis by simp
qed

lemma calendar_roundtrip:
  fixes z :: int
  defines "y \<equiv> YearFromDay z"
  defines "md \<equiv> MonthDateFromDay y z"
  shows "1 \<le> fst md \<and> fst md \<le> 12 \<and> 1 \<le> snd md \<and> snd md \<le> DaysInMonth y (fst md)
       \<and> MakeDay y (fst md) (snd md) = z"
proof -
  have br: "DayFromYear y \<le> z" "z < DayFromYear (y + 1)"
    unfolding y_def using year_bracket [of z] by simp_all
  then have r: "0 \<le> z - DayFromYear y"
    "z - DayFromYear y < sum_list (map (DaysInMonth y) [1, 2, 3, 4, 5, 6, 7, 8, 9, 10, 11, 12])"
    by (simp_all only: days_in_year DayFromYear_Suc)
  from month_date_correct [OF r] obtain pre m post where
    sp: "[1, 2, 3, 4, 5, 6, 7, 8, 9, 10, 11, 12] = pre @ m # post"
    and m: "fst md = m" and d: "1 \<le> snd md" "snd md \<le> DaysInMonth y m"
    and e: "z - DayFromYear y = sum_list (map (DaysInMonth y) pre) + snd md - 1"
    unfolding md_def MonthDateFromDay_def by blast
  from upto_split_at [OF sp] have "1 \<le> m" "m \<le> 12" "pre = [1..m - 1]" by simp_all
  with m d e show ?thesis by (simp add: MakeDay_def)
qed

subsection \<open>\<open>Date.parse\<close> reads back what \<open>toISOString\<close> writes\<close>

lemma digits_of_length:
  "0 \<le> n \<Longrightarrow> n < 10 ^ w \<Longrightarrow> 0 < w \<Longrightarrow> length (digits_of n) \<le> w"
proof (induction n arbitrary: w rule: digits_of.induct)
  case (1 n)
  show ?case
  proof (cases "n < 10")
    case True
    then show ?thesis using "1.prems" by (subst digits_of.simps) simp
  next
    case False
    then obtain v where w: "w = Suc v" using "1.prems" by (cases w) auto
    have "0 < v"
    proof (rule ccontr)
      assume "\<not> 0 < v"
      with w "1.prems" False show False by simp
    qed
    moreover have "n div 10 < 10 ^ v" using "1.prems"(2) w by simp
    moreover have "0 \<le> n div 10" using "1.prems"(1) by simp
    ultimately have "length (digits_of (n div 10)) \<le> v" using "1.IH" False by simp
    then show ?thesis using False w by (subst digits_of.simps) simp
  qed
qed

lemma int_of_digits_zeros: "int_of_digits (replicate k CHR ''0'' @ ds) = int_of_digits ds"
  by (induction k) (simp_all add: int_of_digits_def digit_val_def)

lemma pad_props:
  assumes "0 \<le> n" and "n < 10 ^ w" and "0 < w"
  shows "length (pad w n) = w" and "list_all is_digit (pad w n)" and "int_of_digits (pad w n) = n"
proof -
  have len: "length (digits_of n) \<le> w" using assms by (rule digits_of_length)
  then show "length (pad w n) = w" by (simp add: pad_def Let_def)
  have "is_digit CHR ''0''" by (simp add: is_digit_def)
  then show "list_all is_digit (pad w n)"
    using digits_of_all_digits [OF assms(1)] by (auto simp: pad_def Let_def list_all_iff)
  show "int_of_digits (pad w n) = n"
    using int_of_digits_of [OF assms(1)] by (simp add: pad_def Let_def int_of_digits_zeros)
qed

lemma pad2:
  assumes "0 \<le> n" and "n < 100"
  obtains a b where "pad 2 n = [a, b]" and "is_digit a" and "is_digit b" and "int_of_digits [a, b] = n"
proof -
  have "n < 10 ^ 2" using assms by simp
  note p = pad_props [OF assms(1) this]
  from p(1) obtain a b where ab: "pad 2 n = [a, b]"
    by (auto simp: length_Suc_conv numeral_2_eq_2)
  with p(2,3) that show ?thesis by simp
qed

lemma pad3:
  assumes "0 \<le> n" and "n < 1000"
  obtains a b c where "pad 3 n = [a, b, c]" and "is_digit a" and "is_digit b" and "is_digit c"
    and "int_of_digits [a, b, c] = n"
proof -
  have "n < 10 ^ 3" using assms by simp
  note p = pad_props [OF assms(1) this]
  from p(1) obtain a b c where ab: "pad 3 n = [a, b, c]"
    by (auto simp: length_Suc_conv numeral_3_eq_3)
  with p(2,3) that show ?thesis by simp
qed

lemma DaysInMonth_le: "DaysInMonth y m \<le> 31"
  by (simp add: DaysInMonth_def)

lemma parse_iso_tail_formatted:
  assumes "1 \<le> m" "m \<le> 12" "1 \<le> d" "d \<le> DaysInMonth y m"
    and "0 \<le> hh" "hh \<le> 23" "0 \<le> mi" "mi \<le> 59" "0 \<le> ss" "ss \<le> 59" "0 \<le> ms" "ms < 1000"
  shows "parse_iso_tail y (''-'' @ pad 2 m @ ''-'' @ pad 2 d @ ''T'' @ pad 2 hh @ '':'' @ pad 2 mi
            @ '':'' @ pad 2 ss @ ''.'' @ pad 3 ms @ ''Z'')
         = Some (MakeDay y m d * msPerDay + hh * 3600000 + mi * 60000 + ss * 1000 + ms)"
proof -
  have d31: "d < 100" using assms(4) DaysInMonth_le [of y m] by linarith
  obtain m1 m2 where m: "pad 2 m = [m1, m2]" "is_digit m1" "is_digit m2" "int_of_digits [m1, m2] = m"
    using assms by (auto intro: pad2 [of m])
  obtain d1 d2 where d: "pad 2 d = [d1, d2]" "is_digit d1" "is_digit d2" "int_of_digits [d1, d2] = d"
    using assms d31 by (auto intro: pad2 [of d])
  obtain h1 h2 where h: "pad 2 hh = [h1, h2]" "is_digit h1" "is_digit h2" "int_of_digits [h1, h2] = hh"
    using assms by (auto intro: pad2 [of hh])
  obtain i1 i2 where i: "pad 2 mi = [i1, i2]" "is_digit i1" "is_digit i2" "int_of_digits [i1, i2] = mi"
    using assms by (auto intro: pad2 [of mi])
  obtain s1 s2 where s: "pad 2 ss = [s1, s2]" "is_digit s1" "is_digit s2" "int_of_digits [s1, s2] = ss"
    using assms by (auto intro: pad2 [of ss])
  obtain f1 f2 f3 where f: "pad 3 ms = [f1, f2, f3]" "is_digit f1" "is_digit f2" "is_digit f3"
      "int_of_digits [f1, f2, f3] = ms"
    using assms by (auto intro: pad3 [of ms])
  show ?thesis
    using assms m(2-) d(2-) h(2-) i(2-) s(2-) f(2-)
    by (simp add: parse_iso_tail_def m(1) d(1) h(1) i(1) s(1) f(1) substring_def Let_def)
qed


lemma parse_iso_year:
  assumes "\<bar>y\<bar> < 1000000"
  shows "parse_iso (year_string y @ r) = parse_iso_tail y r"
proof -
  consider "0 \<le> y" "y \<le> 9999" | "9999 < y" | "y < 0" by linarith
  then show ?thesis
  proof cases
    case 1
    then have "y < 10 ^ 4" by simp
    note p = pad_props [OF 1(1) this]
    from p(1) obtain a b c d where abcd: "pad 4 y = [a, b, c, d]"
      by (auto simp: length_Suc_conv numeral_eq_Suc)
    with p(2) have "is_digit a" by simp
    then have "a \<noteq> CHR ''+''" "a \<noteq> CHR ''-''" by (auto simp: is_digit_def)
    then show ?thesis
      using 1 p(2,3) by (simp add: parse_iso_def year_string_def abcd)
  next
    case 2
    with assms have "0 \<le> y" "y < 10 ^ 6" by simp_all
    note p = pad_props [OF this]
    from 2 have ys: "year_string y = CHR ''+'' # pad 6 y"
      by (simp add: year_string_def)
    show ?thesis
      using p by (simp add: parse_iso_def ys Let_def)
  next
    case 3
    with assms have "0 \<le> - y" "- y < 10 ^ 6" by simp_all
    note p = pad_props [OF this]
    from 3 have ys: "year_string y = CHR ''-'' # pad 6 (- y)"
      by (simp add: year_string_def)
    show ?thesis
      using p 3 by (simp add: parse_iso_def ys Let_def)
  qed
qed

lemma time_within_day:
  fixes r :: int
  assumes "0 \<le> r" and "r < 86400000"
  shows "0 \<le> r div 3600000" "r div 3600000 \<le> 23"
    and "0 \<le> r div 60000 mod 60" "r div 60000 mod 60 \<le> 59"
    and "0 \<le> r div 1000 mod 60" "r div 1000 mod 60 \<le> 59"
    and "0 \<le> r mod 1000" "r mod 1000 < 1000"
    and "r div 3600000 * 3600000 + r div 60000 mod 60 * 60000 + r div 1000 mod 60 * 1000 + r mod 1000 = r"
proof -
  show "0 \<le> r div 3600000" using assms by simp
  show "r div 3600000 \<le> 23" using assms by simp
  show "0 \<le> r div 60000 mod 60" "r div 60000 mod 60 \<le> 59" by simp_all
  show "0 \<le> r div 1000 mod 60" "r div 1000 mod 60 \<le> 59" by simp_all
  show "0 \<le> r mod 1000" "r mod 1000 < 1000" by simp_all
  have a: "r div 60000 = r div 1000 div 60" by (simp add: div_mult2_eq)
  have b: "r div 3600000 = r div 60000 div 60" by (simp add: div_mult2_eq)
  have "r = r div 1000 * 1000 + r mod 1000" by simp
  moreover have "r div 1000 = r div 1000 div 60 * 60 + r div 1000 mod 60" by simp
  moreover have "r div 60000 = r div 60000 div 60 * 60 + r div 60000 mod 60" by simp
  ultimately show "r div 3600000 * 3600000 + r div 60000 mod 60 * 60000 + r div 1000 mod 60 * 1000 + r mod 1000 = r"
    unfolding b a by linarith
qed

lemma year_range:
  assumes "\<bar>t\<bar> \<le> 8640000000000000"
  shows "\<bar>YearFromDay (t div msPerDay)\<bar> < 1000000"
proof -
  define z where "z = t div 86400000"
  have "86400000 * z \<le> t" "t < 86400000 * z + 86400000"
    unfolding z_def using div_bounds [of 86400000 t] by simp_all
  with assms have z: "- 100000000 \<le> z" "z \<le> 100000000" by linarith+
  define k where "k = (400 * z) div 146097"
  have "146097 * k \<le> 400 * z" "400 * z < 146097 * k + 146097"
    unfolding k_def using div_bounds [of 146097 "400 * z"] by simp_all
  with z have k: "- 300000 \<le> k" "k \<le> 300000" by linarith+
  have "YearFromDay z = 1970 + k + 1 \<or> YearFromDay z = 1970 + k - 1 \<or> YearFromDay z = 1970 + k"
    by (simp add: YearFromDay_def k_def Let_def)
  with k show ?thesis by (auto simp: msPerDay_def z_def)
qed

lemma parse_iso_iso_string:
  assumes "\<bar>t\<bar> \<le> 8640000000000000"
  shows "parse_iso (iso_string t) = Some t"
proof -
  define z where "z = t div msPerDay"
  define y where "y = YearFromDay z"
  define m where "m = fst (MonthDateFromDay y z)"
  define d where "d = snd (MonthDateFromDay y z)"
  define r where "r = t mod msPerDay"
  have cal: "1 \<le> m" "m \<le> 12" "1 \<le> d" "d \<le> DaysInMonth y m" "MakeDay y m d = z"
    using calendar_roundtrip [of z] by (simp_all add: y_def m_def d_def)
  have r: "0 \<le> r" "r < 86400000" by (simp_all add: r_def msPerDay_def)
  note tw = time_within_day [OF r]
  have yr: "\<bar>y\<bar> < 1000000" using year_range [OF assms] by (simp add: y_def z_def)
  have "iso_string t = year_string y @ (''-'' @ pad 2 m @ ''-'' @ pad 2 d @ ''T''
         @ pad 2 (r div 3600000) @ '':'' @ pad 2 (r div 60000 mod 60) @ '':''
         @ pad 2 (r div 1000 mod 60) @ ''.'' @ pad 3 (r mod 1000) @ ''Z'')"
    by (simp add: iso_string_def Let_def z_def y_def m_def d_def r_def case_prod_beta)
  then have "parse_iso (iso_string t) = Some (MakeDay y m d * msPerDay + r div 3600000 * 3600000
       + r div 60000 mod 60 * 60000 + r div 1000 mod 60 * 1000 + r mod 1000)"
    using parse_iso_year [OF yr] parse_iso_tail_formatted [OF cal(1-4) tw(1-8)] by simp
  also have "\<dots> = Some (z * msPerDay + r)" using cal(5) tw(9) by simp
  also have "z * msPerDay + r = t" by (simp add: z_def r_def)
  finally show ?thesis .
qed

lemma Date_parse_iso_string:
  "\<bar>t\<bar> \<le> 8640000000000000 \<Longrightarrow> Date_parse host (iso_string t) = Some t"
  by (simp add: Date_parse_def parse_iso_iso_string TimeClip_def)

subsection \<open>Doubles\<close>

text \<open>
  Rounding to a double moves a number by at most half the distance between doubles.
  Below \<open>2^38\<close> (\<open>274877906944\<close>) that distance is at most \<open>2^-15\<close>, and every
  half-integer is a double. The quotient of an integer by \<open>60000\<close> is a half-integer or
  at least \<open>1/60000\<close> away from one, which is more than \<open>2^-16\<close>: so \<open>Math.round\<close> of the
  quotient in doubles is \<open>Math.round\<close> of the exact quotient, for every integer below
  \<open>2^53\<close> in magnitude.
\<close>

lemma ilog2_bounds: "1 \<le> n \<Longrightarrow> 2 ^ ilog2 n \<le> n \<and> n < 2 ^ Suc (ilog2 n)"
proof (induction n rule: ilog2.induct)
  case (1 n)
  show ?case
  proof (cases "n < 2")
    case True
    with 1(2) have "n = 1" by simp
    then show ?thesis by (simp add: ilog2.simps)
  next
    case False
    then have "1 \<le> n div 2" by simp
    from 1(1) [OF False this] have lo: "2 ^ ilog2 (n div 2) \<le> n div 2"
      and hi: "n div 2 < 2 ^ Suc (ilog2 (n div 2))" by simp_all
    have eq: "ilog2 n = Suc (ilog2 (n div 2))" using False by (simp add: ilog2.simps)
    from lo have "2 * 2 ^ ilog2 (n div 2) \<le> 2 * (n div 2)" by simp
    also have "\<dots> \<le> n" by simp
    finally have a: "2 ^ ilog2 n \<le> n" by (simp add: eq)
    from hi have "n div 2 + 1 \<le> 2 ^ Suc (ilog2 (n div 2))" by simp
    then have "2 * (n div 2) + 2 \<le> 2 * 2 ^ Suc (ilog2 (n div 2))" by simp
    moreover have "n < 2 * (n div 2) + 2" by simp
    ultimately have b: "n < 2 ^ Suc (ilog2 n)" by (simp add: eq)
    from a b show ?thesis by simp
  qed
qed

lemma round_half_even_err: "\<bar>of_int (round_half_even z) - z\<bar> \<le> 1 / 2"
proof -
  have "of_int \<lfloor>z\<rfloor> \<le> z" "z < of_int \<lfloor>z\<rfloor> + 1" by linarith+
  then show ?thesis
    by (auto simp: round_half_even_def Let_def abs_le_iff)
qed

lemma round_half_even_int: "round_half_even (of_int k) = k"
  by (simp add: round_half_even_def)

lemma double_ulp_pos: "0 < double_ulp q"
  by (simp add: double_ulp_def Let_def)

lemma double_of_rat_err: "\<bar>double_of_rat q - q\<bar> \<le> double_ulp q / 2"
proof -
  define u where "u = double_ulp q"
  have u: "0 < u" by (simp add: u_def double_ulp_pos)
  have "\<bar>of_int (round_half_even (q / u)) - q / u\<bar> \<le> 1 / 2"
    by (rule round_half_even_err)
  then have "\<bar>of_int (round_half_even (q / u)) - q / u\<bar> * u \<le> 1 / 2 * u"
    using u by (simp add: mult_right_mono)
  moreover have "\<bar>of_int (round_half_even (q / u)) - q / u\<bar> * u
      = \<bar>(of_int (round_half_even (q / u)) - q / u) * u\<bar>"
    using u by (simp add: abs_mult)
  moreover have "(of_int (round_half_even (q / u)) - q / u) * u
      = of_int (round_half_even (q / u)) * u - q"
    using u by (simp add: left_diff_distrib)
  ultimately show ?thesis by (simp add: double_of_rat_def u_def)
qed

lemma double_ulp_small:
  assumes "\<bar>q\<bar> < 274877906944"
  shows "\<exists>j\<ge>15. double_ulp q = 1 / 2 ^ j"
proof -
  define N where "N = \<lfloor>\<bar>q\<bar> * 65536\<rfloor>"
  have "\<bar>q\<bar> * 65536 < 274877906944 * 65536" using assms by simp
  then have "N < 18014398509481984" by (simp add: N_def floor_less_iff)
  have l: "ilog2 N < 54"
  proof (cases "1 \<le> N")
    case True
    from ilog2_bounds [OF True] \<open>N < 18014398509481984\<close>
    have "(2::int) ^ ilog2 N < 2 ^ 54" by simp
    then show ?thesis by (simp only: power_strict_increasing_iff)
  next
    case False
    then show ?thesis by (simp add: ilog2.simps)
  qed
  then have "double_ulp q = 1 / 2 ^ (68 - ilog2 N)" "15 \<le> 68 - ilog2 N"
    by (simp_all add: double_ulp_def N_def Let_def)
  then show ?thesis by blast
qed

lemma double_of_rat_half_integer:
  assumes "\<bar>q\<bar> < 274877906944" and "2 * q = of_int m"
  shows "double_of_rat q = q"
proof -
  from double_ulp_small [OF assms(1)] obtain j where j: "15 \<le> j" and u: "double_ulp q = 1 / 2 ^ j"
    by blast
  from j obtain i where i: "j = Suc i" by (cases j) simp_all
  have "q / double_ulp q = q * 2 ^ j" by (simp add: u)
  also have "\<dots> = (2 * q) * 2 ^ i" by (simp add: i)
  also have "\<dots> = of_int (m * 2 ^ i)" by (simp add: assms(2))
  finally have "round_half_even (q / double_ulp q) = m * 2 ^ i"
    by (simp only: round_half_even_int)
  then have "double_of_rat q = of_int (m * 2 ^ i) * (1 / 2 ^ j)"
    by (simp add: double_of_rat_def u)
  also have "\<dots> = of_int m / 2" by (simp add: i)
  also have "\<dots> = q" using assms(2) by simp
  finally show ?thesis .
qed

lemma double_of_rat_close:
  assumes "\<bar>q\<bar> < 274877906944"
  shows "\<bar>double_of_rat q - q\<bar> \<le> 1 / 65536"
proof -
  from double_ulp_small [OF assms] obtain j where j: "15 \<le> j" and u: "double_ulp q = 1 / 2 ^ j"
    by blast
  have "(2::rat) ^ 15 \<le> 2 ^ j" using j by (simp only: power_increasing_iff)
  then have "double_ulp q \<le> 1 / 32768" by (simp add: u field_simps)
  with double_of_rat_err [of q] show ?thesis by simp
qed

lemma Math_round_quotient_in_doubles:
  assumes "\<bar>x\<bar> < 9007199254740992"
  shows "Math_round (double_of_rat (of_int x / 60000)) = Math_round (of_int x / 60000)"
proof -
  define q :: rat where "q = of_int x / 60000"
  define k where "k = Math_round q"
  have "\<bar>q\<bar> = of_int \<bar>x\<bar> / 60000" by (simp add: q_def)
  also have "\<dots> < 9007199254740992 / 60000" using assms by (simp add: divide_strict_right_mono)
  also have "\<dots> < (274877906944 :: rat)" by simp
  finally have small: "\<bar>q\<bar> < 274877906944" .
  note close = double_of_rat_close [OF small]
  have k1: "of_int k \<le> q + 1 / 2" and k2: "q + 1 / 2 < of_int k + 1"
    unfolding k_def Math_round_def by linarith+
  from k2 have "of_int x < (of_int (60000 * k + 30000) :: rat)"
    by (simp add: q_def field_simps)
  then have "x < 60000 * k + 30000" by (simp only: of_int_less_iff)
  then have "x \<le> 60000 * k + 29999" by simp
  then have "(of_int x :: rat) \<le> of_int (60000 * k + 29999)" by (simp only: of_int_le_iff)
  then have up: "q \<le> of_int k + 1 / 2 - 1 / 60000" by (simp add: q_def field_simps)
  from k1 have "(of_int (60000 * k - 30000) :: rat) \<le> of_int x"
    by (simp add: q_def field_simps)
  then have lo_int: "60000 * k - 30000 \<le> x" by (simp only: of_int_le_iff)
  have lower: "of_int k - 1 / 2 \<le> double_of_rat q"
  proof (cases "x = 60000 * k - 30000")
    case True
    then have "(of_int x :: rat) = of_int (60000 * k - 30000)" by (simp only:)
    then have qk: "q = of_int k - 1 / 2" by (simp add: q_def field_simps)
    then have "2 * q = of_int (2 * k - 1)" by simp
    from double_of_rat_half_integer [OF small this] have e: "double_of_rat q = q" .
    show ?thesis unfolding e using qk by simp
  next
    case False
    with lo_int have "60000 * k - 29999 \<le> x" by simp
    then have "(of_int (60000 * k - 29999) :: rat) \<le> of_int x" by (simp only: of_int_le_iff)
    then have "of_int k - 1 / 2 + 1 / 60000 \<le> q" by (simp add: q_def field_simps)
    with close show ?thesis by linarith
  qed
  have upper: "double_of_rat q < of_int k + 1 / 2"
    using up close by linarith
  have "\<lfloor>double_of_rat q + 1 / 2\<rfloor> = k"
    using lower upper by (simp add: floor_unique)
  then show ?thesis by (simp add: Math_round_def k_def q_def)
qed

section \<open>The date codec\<close>

lemma parseDate_encoded:
  "parseDate (encode_Date (Some ms)) = Date_toISOString (Date_of_number (Some ms))"
  by (simp add: parseDate_def match_Date_encoded Number_toString_nonempty
      parseInt10_Number_toString)

lemma parseDate_encoded_instant:
  "\<bar>ms\<bar> \<le> 8640000000000000 \<Longrightarrow> parseDate (encode_Date (Some ms)) = Inr (iso_string ms)"
  by (simp add: parseDate_encoded Date_of_number_def TimeClip_def Date_toISOString_def)

lemma iso_string_nonempty: "iso_string t \<noteq> []"
  by (simp add: iso_string_def Let_def case_prod_beta)

text \<open>
  Claim C1 (round trip). For every instant representable in whole milliseconds, also a
  negative one, \<open>parseDate\<close> applied to the text \<open>/Date(<ms>)/\<close> that the encoder
  writes returns the ISO-8601 string of exactly that instant: it is what
  \<open>new Date(ms).toISOString()\<close> yields, and \<open>new Date\<close> of that string is the instant
  \<open>ms\<close> again. The instants of a \<open>Date\<close> are the integers of magnitude at most
  \<open>8.64e15\<close>.
\<close>

theorem parseDate_roundtrip:
  "parseDate (encode_Date (Some ms)) = Date_toISOString (Date_of_number (Some ms))
   \<and> (\<bar>ms\<bar> \<le> 8640000000000000 \<longrightarrow>
        parseDate (encode_Date (Some ms)) = Inr (iso_string ms)
      \<and> Date_parse host (iso_string ms) = Some ms)"
  by (simp add: parseDate_encoded Date_of_number_def TimeClip_def Date_toISOString_def
      Date_parse_iso_string)

theorem parseDate_roundtrip_witness:
  "\<bar>- 1 :: int\<bar> \<le> 8640000000000000
   \<and> encode_Date (Some (- 1)) = ''/Date(-1)/''
   \<and> parseDate ''/Date(-1)/'' = Inr ''1969-12-31T23:59:59.999Z''
   \<and> Date_parse (\<lambda>s. None) ''1969-12-31T23:59:59.999Z'' = Some (- 1)"
proof -
  have enc: "encode_Date (Some (- 1)) = ''/Date(-1)/''"
    by code_simp
  have iso: "iso_string (- 1) = ''1969-12-31T23:59:59.999Z''"
    by code_simp
  show ?thesis
    using parseDate_roundtrip [of "- 1" "\<lambda>s. None", THEN conjunct2] enc iso by simp
qed

text \<open>
  Claim C7 (decode is total). The claim says that \<open>parseDate\<close> never throws. It does:
  the pattern accepts any run of digits, and an integer beyond the range of \<open>Date\<close> makes
  an invalid date, on which \<open>toISOString\<close> throws a \<open>RangeError\<close>. The smallest such
  integer:
\<close>

theorem parseDate_throws_beyond_Date_range:
  "parseDate ''/Date(8640000000000001)/'' = Inl (RangeError ''Invalid time value'')"
  by code_simp

text \<open>
  The rest of the claim holds: an input in which the pattern does not occur is returned
  as it is, and \<open>parseDate\<close> throws nothing but that \<open>RangeError\<close>.
\<close>

lemma parseDate_no_match: "match_Date raw = None \<Longrightarrow> parseDate raw = Inr raw"
  by (simp add: parseDate_def)

lemma parseDate_throws_only_RangeError:
  "parseDate raw = Inl e \<Longrightarrow> e = RangeError ''Invalid time value'' \<and> match_Date raw \<noteq> None"
  by (auto simp: parseDate_def Date_toISOString_def split: option.splits if_splits)

lemma parseDate_throws_iff:
  "isl (parseDate raw) \<longleftrightarrow>
     (\<exists>g. match_Date raw = Some g \<and> g \<noteq> [] \<and> Date_of_number (parseInt10 g) = None)"
  by (auto simp: parseDate_def Date_toISOString_def split: option.splits)

section \<open>The runs of \<open>searchConnections\<close>\<close>

text \<open>
  The requests sent by a station lookup do not depend on its outcome, so the definition of
  \<open>searchConnections\<close> can be rewritten with the list of requests explicit in every
  branch.
\<close>

lemma searchStation_sent: "snd (searchStation w q sent) = sent @ [SearchGlobalListItemInfoExt q 5]"
  by (simp add: searchStation_def post_SearchGlobalListItemInfoExt_def
      split: sum.splits option.splits list.splits)

lemma searchStation_fst: "fst (searchStation w q sent) = fst (searchStation w q [])"
  by (simp add: searchStation_def post_SearchGlobalListItemInfoExt_def
      split: sum.splits option.splits list.splits)

lemma searchStation_eq:
  "searchStation w q sent = (fst (searchStation w q []), sent @ [SearchGlobalListItemInfoExt q 5])"
  using searchStation_sent [of w q sent] searchStation_fst [of w q sent]
  by (cases "searchStation w q sent") simp

lemma searchConnections_unfold:
  "searchConnections w from to departure passengers =
     (let s2 = [SearchGlobalListItemInfoExt from 5, SearchGlobalListItemInfoExt to 5]
      in case Promise_all2 (second_settles_first w)
                (fst (searchStation w from [])) (fst (searchStation w to [])) of
           Inl e \<Rightarrow> (Inl e, s2)
         | Inr (fromStation, toStation) \<Rightarrow>
             (case on_CreateSession w of
                Inl e \<Rightarrow> (Inl e, s2 @ [CreateSession])
              | Inr sessionID \<Rightarrow>
                  (case Array_fill passengers default_passenger of
                     Inl e \<Rightarrow> (Inl e, s2 @ [CreateSession])
                   | Inr ps \<Rightarrow>
                       (let f = \<lparr>iListID = station_id fromStation, sName = station_name fromStation\<rparr>;
                            t = \<lparr>iListID = station_id toStation, sName = station_name toStation\<rparr>;
                            dt = encode_Date (Date_parse (host_Date_parse w) departure);
                            s4 = s2 @ [CreateSession, SearchConnectionInfo1 sessionID f t dt ps]
                        in case on_SearchConnectionInfo1 w sessionID f t dt ps of
                             Inl e \<Rightarrow> (Inl e, s4)
                           | Inr result \<Rightarrow>
                               (case guarded_aoConnections result of
                                  None \<Rightarrow> (Inr \<lparr>handle = None, connections = []\<rparr>, s4)
                                | Some (h, conns) \<Rightarrow>
                                    (merged w departure h
                                       (prices_used (on_GetConnectionsPrice w sessionID h (map iID conns) ps) conns)
                                       conns,
                                     s4 @ [GetConnectionsPrice sessionID h (map iID conns) ps]))))))"
  unfolding searchConnections_def
  apply (subst searchStation_eq [of w "from"])
  apply (subst searchStation_eq [of w "to"])
  apply (simp add: Let_def createSession_def post_CreateSession_def
      post_SearchConnectionInfo1_def lookup_prices_def post_GetConnectionsPrice_def
      merged_def prices_used_def
      split: sum.splits option.splits prod.splits)
  done

lemma run_priced:
  assumes "searchConnections w from to departure passengers = (out, sent)"
    and "GetConnectionsPrice sid h ids aps \<in> set sent"
  shows "\<exists>conns f t dt result.
           ids = map iID conns
           \<and> sent = [SearchGlobalListItemInfoExt from 5, SearchGlobalListItemInfoExt to 5,
                     CreateSession, SearchConnectionInfo1 sid f t dt aps,
                     GetConnectionsPrice sid h ids aps]
           \<and> on_SearchConnectionInfo1 w sid f t dt aps = Inr result
           \<and> guarded_aoConnections result = Some (h, conns)
           \<and> out = merged w departure h (prices_used (on_GetConnectionsPrice w sid h ids aps) conns) conns"
  using assms unfolding searchConnections_unfold Let_def
  by (auto split: sum.splits option.splits prod.splits)

lemma run_searched:
  assumes "searchConnections w from to departure passengers = (out, sent)"
    and "SearchConnectionInfo1 sid f t dt ps \<in> set sent"
  shows "(case on_SearchConnectionInfo1 w sid f t dt ps of
            Inl e \<Rightarrow> out = Inl e \<and> sent = [SearchGlobalListItemInfoExt from 5, SearchGlobalListItemInfoExt to 5,
                     CreateSession, SearchConnectionInfo1 sid f t dt ps]
          | Inr result \<Rightarrow>
             (case guarded_aoConnections result of
                None \<Rightarrow> out = Inr \<lparr>handle = None, connections = []\<rparr>
                  \<and> sent = [SearchGlobalListItemInfoExt from 5, SearchGlobalListItemInfoExt to 5,
                     CreateSession, SearchConnectionInfo1 sid f t dt ps]
              | Some (h, conns) \<Rightarrow>
                  out = merged w departure h (prices_used (on_GetConnectionsPrice w sid h (map iID conns) ps) conns) conns
                  \<and> sent = [SearchGlobalListItemInfoExt from 5, SearchGlobalListItemInfoExt to 5,
                     CreateSession, SearchConnectionInfo1 sid f t dt ps,
                     GetConnectionsPrice sid h (map iID conns) ps]))"
  using assms unfolding searchConnections_unfold Let_def
  by (auto split: sum.splits option.splits prod.splits)

lemma run_returned:
  assumes "searchConnections w from to departure passengers = (Inr r, sent)"
  shows "(connections r = [] \<and> handle r = None)
         \<or> (\<exists>h prices conns. merged w departure h prices conns = Inr r)"
  using assms unfolding searchConnections_unfold Let_def
  by (auto split: sum.splits option.splits prod.splits)

subsection \<open>The merge\<close>

lemma mapM_result_Inr:
  "mapM_result f xs = Inr ys \<Longrightarrow> length ys = length xs \<and> (\<forall>i<length xs. f (xs ! i) = Inr (ys ! i))"
proof (induction xs arbitrary: ys)
  case Nil
  then show ?case by simp
next
  case (Cons x xs)
  then obtain y ys' where y: "f x = Inr y" and ys': "mapM_result f xs = Inr ys'" and ys: "ys = y # ys'"
    by (auto split: sum.splits)
  from Cons.IH [OF ys'] y ys show ?case
    by (auto simp: nth_Cons split: nat.splits)
qed

lemma mapM_result_Inl: "mapM_result f xs = Inl e \<Longrightarrow> \<exists>x\<in>set xs. f x = Inl e"
  by (induction xs) (auto split: sum.splits)

lemma mapM_result_total:
  "(\<forall>x\<in>set xs. \<exists>y. f x = Inr y) \<Longrightarrow> \<exists>ys. mapM_result f xs = Inr ys"
  by (induction xs) (auto split: sum.splits)

lemma merged_Inr:
  assumes "merged w departure h prices conns = Inr r"
  shows "handle r = Some (Number_toString h)"
    and "length (connections r) = length conns"
    and "i < length conns \<Longrightarrow> toConnection w departure prices i (conns ! i) = Inr (connections r ! i)"
proof -
  from assms obtain cs where cs: "mapM_result (\<lambda>(idx, conn). toConnection w departure prices idx conn) (enumerate 0 conns) = Inr cs"
    and r: "r = \<lparr>handle = Some (Number_toString h), connections = cs\<rparr>"
    by (auto simp: merged_def split: sum.splits)
  from mapM_result_Inr [OF cs] have len: "length cs = length conns"
    and nth: "\<forall>i<length conns. (\<lambda>(idx, conn). toConnection w departure prices idx conn) (enumerate 0 conns ! i) = Inr (cs ! i)"
    by simp_all
  show "handle r = Some (Number_toString h)" by (simp add: r)
  show "length (connections r) = length conns" by (simp add: r len)
  show "i < length conns \<Longrightarrow> toConnection w departure prices i (conns ! i) = Inr (connections r ! i)"
    using nth by (simp add: r nth_enumerate_eq)
qed

lemma toConnection_Inr:
  assumes "toConnection w departure prices idx conn = Inr c"
  shows "conn_id c = Number_toString (iID conn)"
    and "transfers c = int (length (aoTrains conn)) - 1"
    and "length (legs c) = length (aoTrains conn)"
    and "price c = (case js_index prices idx of None \<Rightarrow> None
                    | Some p \<Rightarrow> if p > 0 then Some \<lparr>amount = p, currency = DEFAULT_CURRENCY\<rparr> else None)"
    and "conn_departure c = or_string (map_option leg_departure (js_index (legs c) 0)) departure"
    and "conn_arrival c = or_string (map_option leg_arrival
            (if legs c = [] then None else js_index (legs c) (length (legs c) - 1))) departure"
    and "duration c = durationMinutes (Date_parse (host_Date_parse w) (conn_arrival c))
                        (Date_parse (host_Date_parse w) (conn_departure c))"
proof -
  from assms obtain ls where ls: "mapM_result toLeg (aoTrains conn) = Inr ls"
    by (auto simp: toConnection_def split: sum.splits)
  from mapM_result_Inr [OF ls] have len: "length ls = length (aoTrains conn)" by simp
  from assms ls have c: "c = \<lparr>conn_id = Number_toString (iID conn),
       conn_departure = or_string (map_option leg_departure (js_index ls 0)) departure,
       conn_arrival = or_string (map_option leg_arrival (if ls = [] then None else js_index ls (length ls - 1))) departure,
       duration = durationMinutes
          (Date_parse (host_Date_parse w) (or_string (map_option leg_arrival (if ls = [] then None else js_index ls (length ls - 1))) departure))
          (Date_parse (host_Date_parse w) (or_string (map_option leg_departure (js_index ls 0)) departure)),
       transfers = int (length (aoTrains conn)) - 1,
       legs = ls,
       price = (case js_index prices idx of None \<Rightarrow> None
                | Some p \<Rightarrow> if p > 0 then Some \<lparr>amount = p, currency = DEFAULT_CURRENCY\<rparr> else None)\<rparr>"
    by (simp add: toConnection_def Let_def)
  show "conn_id c = Number_toString (iID conn)" by (simp add: c)
  show "transfers c = int (length (aoTrains conn)) - 1" by (simp add: c)
  show "length (legs c) = length (aoTrains conn)" by (simp add: c len)
  show "price c = (case js_index prices idx of None \<Rightarrow> None
                    | Some p \<Rightarrow> if p > 0 then Some \<lparr>amount = p, currency = DEFAULT_CURRENCY\<rparr> else None)"
    by (simp add: c)
  show "conn_departure c = or_string (map_option leg_departure (js_index (legs c) 0)) departure"
    by (simp add: c)
  show "conn_arrival c = or_string (map_option leg_arrival
            (if legs c = [] then None else js_index (legs c) (length (legs c) - 1))) departure"
    by (simp add: c)
  show "duration c = durationMinutes (Date_parse (host_Date_parse w) (conn_arrival c))
                        (Date_parse (host_Date_parse w) (conn_departure c))"
    by (simp add: c)
qed

lemma returned_connection:
  assumes "searchConnections w from to departure passengers = (Inr r, sent)"
    and "c \<in> set (connections r)"
  shows "\<exists>prices idx conn. toConnection w departure prices idx conn = Inr c"
proof -
  from run_returned [OF assms(1)] assms(2)
  obtain h prices conns where m: "merged w departure h prices conns = Inr r"
    by (metis empty_iff list.set(1))
  from assms(2) obtain i where i: "i < length (connections r)" and ci: "connections r ! i = c"
    by (auto simp: in_set_conv_nth)
  from merged_Inr(2) [OF m] i have "i < length conns" by simp
  from merged_Inr(3) [OF m this] ci show ?thesis by auto
qed

lemma toLeg_total:
  "\<not> isl (parseDate (dtDateTime1 leg)) \<Longrightarrow> \<not> isl (parseDate (dtDateTime2 leg)) \<Longrightarrow> \<exists>l. toLeg leg = Inr l"
  by (auto simp: toLeg_def isl_def split: sum.splits)

lemma toLeg_Inl: "toLeg leg = Inl e \<Longrightarrow> e = RangeError ''Invalid time value''"
  by (auto simp: toLeg_def split: sum.splits dest: parseDate_throws_only_RangeError)

lemma toConnection_total:
  assumes "list_all (\<lambda>leg. \<not> isl (parseDate (dtDateTime1 leg)) \<and> \<not> isl (parseDate (dtDateTime2 leg))) (aoTrains conn)"
  shows "\<exists>c. toConnection w departure prices idx conn = Inr c"
proof -
  from assms have "\<forall>leg\<in>set (aoTrains conn). \<exists>l. toLeg leg = Inr l"
    by (auto simp: list_all_iff intro: toLeg_total)
  then obtain ls where "mapM_result toLeg (aoTrains conn) = Inr ls"
    using mapM_result_total by blast
  then show ?thesis by (simp add: toConnection_def Let_def)
qed

lemma toConnection_Inl:
  "toConnection w departure prices idx conn = Inl e \<Longrightarrow> e = RangeError ''Invalid time value''"
  by (auto simp: toConnection_def Let_def split: sum.splits dest!: mapM_result_Inl toLeg_Inl)

lemma merged_total:
  assumes "decodable conns"
  shows "\<exists>cs. merged w departure h prices conns = Inr \<lparr>handle = Some (Number_toString h), connections = cs\<rparr>"
proof -
  have "\<forall>x\<in>set (enumerate 0 conns). \<exists>c. (\<lambda>(idx, conn). toConnection w departure prices idx conn) x = Inr c"
  proof
    fix x assume "x \<in> set (enumerate 0 conns)"
    then have "snd x \<in> snd ` set (enumerate 0 conns)" by (rule imageI)
    then have "snd x \<in> set conns" by (simp flip: set_map)
    with assms show "\<exists>c. (\<lambda>(idx, conn). toConnection w departure prices idx conn) x = Inr c"
      using toConnection_total [of "snd x" w departure prices "fst x"]
      by (auto simp: decodable_def list_all_iff case_prod_beta)
  qed
  then obtain cs where "mapM_result (\<lambda>(idx, conn). toConnection w departure prices idx conn) (enumerate 0 conns) = Inr cs"
    using mapM_result_total by blast
  then show ?thesis by (simp add: merged_def)
qed

lemma merged_Inl:
  "merged w departure h prices conns = Inl e \<Longrightarrow> e = RangeError ''Invalid time value''"
  by (auto simp: merged_def split: sum.splits dest!: mapM_result_Inl toConnection_Inl)

subsection \<open>Runs against the stub upstream\<close>

lemma run_three_priced:
  "searchConnections
     (stub_world (found three_connections)
        (Inr (Some [\<lparr>iPrice = Some 1000\<rparr>, \<lparr>iPrice = Some 0\<rparr>, \<lparr>iPrice = Some 3000\<rparr>])))
     ''Praha'' ''Brno'' ''2025-12-15T10:00:00.000Z'' 1
   = (Inr \<lparr>handle = Some ''7'',
           connections = three_domain_connections
              [Some \<lparr>amount = 10, currency = ''CZK''\<rparr>, None, Some \<lparr>amount = 30, currency = ''CZK''\<rparr>]\<rparr>,
      requests_until_search @ [GetConnectionsPrice ''s1'' 7 [1, 2, 3] [default_passenger]])"
  by code_simp

lemma first_of_three:
  "\<lparr>conn_id = ''1'', conn_departure = ''2025-12-15T10:36:00.000Z'',
     conn_arrival = ''2025-12-15T13:13:00.000Z'', duration = Some 157, transfers = 0,
     legs = [domain_leg ''2025-12-15T10:36:00.000Z'' ''2025-12-15T13:13:00.000Z''],
     price = Some \<lparr>amount = 10, currency = ''CZK''\<rparr>\<rparr>
   \<in> set (connections \<lparr>handle = Some ''7'',
           connections = three_domain_connections
              [Some \<lparr>amount = 10, currency = ''CZK''\<rparr>, None, Some \<lparr>amount = 30, currency = ''CZK''\<rparr>]\<rparr>)"
  by (simp add: three_domain_connections_def)

lemma third_of_three:
  "\<lparr>conn_id = ''3'', conn_departure = ''2025-12-15T11:30:00.000Z'',
       conn_arrival = ''2025-12-15T14:30:00.000Z'', duration = Some 180, transfers = 1,
       legs = [domain_leg ''2025-12-15T11:30:00.000Z'' ''2025-12-15T13:00:00.000Z'',
               domain_leg ''2025-12-15T13:10:00.000Z'' ''2025-12-15T14:30:00.000Z''],
       price = Some \<lparr>amount = 30, currency = ''CZK''\<rparr>\<rparr>
   \<in> set (connections \<lparr>handle = Some ''7'',
           connections = three_domain_connections
              [Some \<lparr>amount = 10, currency = ''CZK''\<rparr>, None, Some \<lparr>amount = 30, currency = ''CZK''\<rparr>]\<rparr>)"
  by (simp add: three_domain_connections_def)

lemma run_no_list:
  "searchConnections (stub_world (Inr (Some \<lparr>iHandle = 7, oConnInfo = None\<rparr>)) (Inr (Some [])))
     ''Praha'' ''Brno'' ''2025-12-15T10:00:00.000Z'' 1
   = (Inr \<lparr>handle = None, connections = []\<rparr>, requests_until_search)"
  by code_simp

lemma run_null_answer:
  "searchConnections (stub_world (Inr None) (Inr (Some [])))
     ''Praha'' ''Brno'' ''2025-12-15T10:00:00.000Z'' 1
   = (Inr \<lparr>handle = None, connections = []\<rparr>, requests_until_search)"
  by code_simp

lemma run_null_list:
  "searchConnections
     (stub_world (Inr (Some \<lparr>iHandle = 7, oConnInfo = Some \<lparr>aoConnections = None\<rparr>\<rparr>)) (Inr (Some [])))
     ''Praha'' ''Brno'' ''2025-12-15T10:00:00.000Z'' 1
   = (Inr \<lparr>handle = None, connections = []\<rparr>, requests_until_search)"
  by code_simp

section \<open>The connection search\<close>

subsection \<open>Prices\<close>

text \<open>
  Claim C3 (positional price merge, zero as unknown). Whenever the price request is
  answered, the connections returned are, in order, those whose identifiers were sent in
  the price request, and the price of connection \<open>i\<close> is taken from entry \<open>i\<close> of the
  answer: a raw price above zero becomes that amount divided by 100 in \<open>CZK\<close>; a raw price
  of zero, an entry without price, or no entry at that index leaves the price absent
  (never a price of zero).
\<close>

theorem price_merge_positional:
  assumes "searchConnections w from to departure passengers = (Inr r, sent)"
    and "GetConnectionsPrice sid h ids aps \<in> set sent"
    and "on_GetConnectionsPrice w sid h ids aps = Inr priceResult"
  shows "length (connections r) = length ids
       \<and> (\<forall>i<length ids.
             conn_id (connections r ! i) = Number_toString (ids ! i)
           \<and> price (connections r ! i) =
               (case js_index (case priceResult of None \<Rightarrow> [] | Some ps \<Rightarrow> ps) i of
                  None \<Rightarrow> None
                | Some p \<Rightarrow>
                    (case iPrice p of
                       None \<Rightarrow> None
                     | Some v \<Rightarrow>
                         if v > 0 then Some \<lparr>amount = of_int v / 100, currency = ''CZK''\<rparr>
                         else None)))"
proof -
  from run_priced [OF assms(1,2)] assms(3)
  obtain conns where ids: "ids = map iID conns"
    and m: "merged w departure h (prices_of_response priceResult) conns = Inr r"
    by (auto simp: prices_used_def)
  have len: "length (connections r) = length ids"
    using merged_Inr(2) [OF m] by (simp add: ids)
  have "conn_id (connections r ! i) = Number_toString (ids ! i)
      \<and> price (connections r ! i) =
               (case js_index (case priceResult of None \<Rightarrow> [] | Some ps \<Rightarrow> ps) i of
                  None \<Rightarrow> None
                | Some p \<Rightarrow>
                    (case iPrice p of
                       None \<Rightarrow> None
                     | Some v \<Rightarrow>
                         if v > 0 then Some \<lparr>amount = of_int v / 100, currency = ''CZK''\<rparr>
                         else None))" if i: "i < length ids" for i
  proof -
    from i have i': "i < length conns" by (simp add: ids)
    note c = merged_Inr(3) [OF m i']
    show ?thesis
      using toConnection_Inr(1) [OF c] toConnection_Inr(4) [OF c] i'
      by (auto simp: ids prices_of_response_def js_index_def DEFAULT_CURRENCY_def
          split: option.splits)
  qed
  with len show ?thesis by blast
qed

theorem price_merge_positional_witness:
  "(case fst (searchConnections
       (stub_world (found three_connections)
          (Inr (Some [\<lparr>iPrice = Some 1000\<rparr>, \<lparr>iPrice = Some 0\<rparr>, \<lparr>iPrice = Some 3000\<rparr>])))
       ''Praha'' ''Brno'' ''2025-12-15T10:00:00.000Z'' 1) of
      Inl e \<Rightarrow> []
    | Inr r \<Rightarrow> map (\<lambda>c. (conn_id c, price c)) (connections r))
   = [(''1'', Some \<lparr>amount = 10, currency = ''CZK''\<rparr>),
      (''2'', None),
      (''3'', Some \<lparr>amount = 30, currency = ''CZK''\<rparr>)]"
proof -
  let ?w = "stub_world (found three_connections)
          (Inr (Some [\<lparr>iPrice = Some 1000\<rparr>, \<lparr>iPrice = Some 0\<rparr>, \<lparr>iPrice = Some 3000\<rparr>]))"
  let ?cs = "three_domain_connections
              [Some \<lparr>amount = 10, currency = ''CZK''\<rparr>, None, Some \<lparr>amount = 30, currency = ''CZK''\<rparr>]"
  have mem: "GetConnectionsPrice ''s1'' 7 [1, 2, 3] [default_passenger]
      \<in> set (requests_until_search @ [GetConnectionsPrice ''s1'' 7 [1, 2, 3] [default_passenger]])"
    by simp
  have ans: "on_GetConnectionsPrice ?w ''s1'' 7 [1, 2, 3] [default_passenger]
      = Inr (Some [\<lparr>iPrice = Some 1000\<rparr>, \<lparr>iPrice = Some 0\<rparr>, \<lparr>iPrice = Some 3000\<rparr>])"
    by (simp add: stub_world_def)
  note th = price_merge_positional [OF run_three_priced mem ans, simplified, THEN conjunct2, rule_format]
  have "conn_id (?cs ! 0) = ''1'' \<and> price (?cs ! 0) = Some \<lparr>amount = 10, currency = ''CZK''\<rparr>"
    using th [of 0] by (simp add: js_index_def) code_simp
  moreover have "conn_id (?cs ! 1) = ''2'' \<and> price (?cs ! 1) = None"
    using th [of 1] by (simp add: js_index_def) code_simp
  moreover have "conn_id (?cs ! 2) = ''3'' \<and> price (?cs ! 2) = Some \<lparr>amount = 30, currency = ''CZK''\<rparr>"
    using th [of 2] by (simp add: js_index_def) code_simp
  ultimately show ?thesis
    by (simp add: run_three_priced three_domain_connections_def)
qed

subsection \<open>Derived fields\<close>

lemma js_index_first: "js_index xs 0 = (if xs = [] then None else Some (hd xs))"
  by (cases xs) (simp_all add: js_index_def)

lemma js_index_last: "xs \<noteq> [] \<Longrightarrow> js_index xs (length xs - Suc 0) = Some (last xs)"
  by (simp add: js_index_def last_conv_nth)

lemma Math_round_nonneg: "0 \<le> x \<Longrightarrow> 0 \<le> Math_round x"
  by (simp add: Math_round_def)

lemma round_half_even_nonneg: "0 \<le> q \<Longrightarrow> 0 \<le> round_half_even q"
  by (simp add: round_half_even_def Let_def)

lemma double_of_int54_nonneg: "0 \<le> x \<Longrightarrow> 0 \<le> double_of_int54 x"
  by (simp add: double_of_int54_def round_half_even_nonneg)

lemma double_of_rat_nonneg: "0 \<le> q \<Longrightarrow> 0 \<le> double_of_rat q"
  using double_ulp_pos [of q]
  by (simp add: double_of_rat_def round_half_even_nonneg less_imp_le)

lemma durationMinutes_None:
  "durationMinutes None depTime = None" "durationMinutes arrTime None = None"
  by (simp_all add: durationMinutes_def split: option.splits)

lemma durationMinutes_exact:
  assumes "\<bar>a - d\<bar> < 9007199254740992"
  shows "durationMinutes (Some a) (Some d) = Some (Math_round (of_int (a - d) / 60000))"
  using assms Math_round_quotient_in_doubles [OF assms]
  by (simp add: durationMinutes_def double_of_int54_def)

lemma durationMinutes_Some:
  "\<exists>m. durationMinutes (Some a) (Some d) = Some m
       \<and> (\<bar>a - d\<bar> < 9007199254740992 \<longrightarrow> m = Math_round (of_int (a - d) / 60000))
       \<and> (d \<le> a \<longrightarrow> 0 \<le> m)"
proof -
  have "d \<le> a \<Longrightarrow> 0 \<le> Math_round (double_of_rat (of_int (double_of_int54 (a - d)) / 60000))"
    by (simp add: Math_round_nonneg double_of_rat_nonneg double_of_int54_nonneg)
  moreover have "\<bar>a - d\<bar> < 9007199254740992 \<Longrightarrow>
      Math_round (double_of_rat (of_int (double_of_int54 (a - d)) / 60000))
        = Math_round (of_int (a - d) / 60000)"
    using durationMinutes_exact [of a d] by (simp add: durationMinutes_def)
  ultimately show ?thesis by (simp add: durationMinutes_def)
qed

text \<open>
  Two instants less than \<open>2^53\<close> milliseconds apart: the code computes the rounded exact
  quotient (\<open>durationMinutes_exact\<close>). Further apart the rounding of the difference
  shows: from the first to (nearly) the last instant of \<open>Date\<close> the code counts
  \<open>288000000000\<close> minutes, while the exact quotient rounds to \<open>287999999999\<close>.
\<close>

lemma duration_beyond_2_53:
  "durationMinutes (Some 8639999999969999) (Some (- 8640000000000000)) = Some 288000000000
   \<and> Math_round (of_int (8639999999969999 - (- 8640000000000000)) / 60000) = 287999999999"
  by code_simp

lemma run_far_apart:
  "searchConnections
     (stub_world
        (found [\<lparr>iID = 1, aoTrains = [raw_leg ''/Date(-8640000000000000)/'' ''/Date(8639999999969999)/'']\<rparr>])
        (Inr (Some [\<lparr>iPrice = Some 1000\<rparr>])))
     ''Praha'' ''Brno'' ''2025-12-15T10:00:00.000Z'' 1
   = (Inr \<lparr>handle = Some ''7'',
           connections =
             [\<lparr>conn_id = ''1'', conn_departure = ''-271821-04-20T00:00:00.000Z'',
               conn_arrival = ''+275760-09-12T23:59:29.999Z'', duration = Some 288000000000,
               transfers = 0,
               legs = [domain_leg ''-271821-04-20T00:00:00.000Z'' ''+275760-09-12T23:59:29.999Z''],
               price = Some \<lparr>amount = 10, currency = ''CZK''\<rparr>\<rparr>]\<rparr>,
      requests_until_search @ [GetConnectionsPrice ''s1'' 7 [1] [default_passenger]])"
  by code_simp

lemma toLeg_Inr:
  "toLeg leg = Inr l \<Longrightarrow>
     parseDate (dtDateTime1 leg) = Inr (leg_departure l) \<and> parseDate (dtDateTime2 leg) = Inr (leg_arrival l)"
  by (auto simp: toLeg_def split: sum.splits)

text \<open>
  From the upstream's epoch values to the duration: when the first leg of raw connection
  \<open>i\<close> departs at \<open>/Date(d)/\<close> and its last leg arrives at \<open>/Date(a)/\<close>, less than
  \<open>2^53\<close> milliseconds apart, connection \<open>i\<close> of the result departs at the instant \<open>d\<close>,
  arrives at the instant \<open>a\<close>, and lasts \<open>round((a - d) / 60000)\<close> minutes.
\<close>

lemma duration_from_epoch_values:
  assumes "searchConnections w from to departure passengers = (Inr r, sent)"
    and "SearchConnectionInfo1 sid f t dt ps \<in> set sent"
    and "on_SearchConnectionInfo1 w sid f t dt ps = Inr result"
    and "guarded_aoConnections result = Some (h, conns)"
    and "i < length conns"
    and "aoTrains (conns ! i) \<noteq> []"
    and "dtDateTime1 (hd (aoTrains (conns ! i))) = encode_Date (Some d)"
    and "dtDateTime2 (last (aoTrains (conns ! i))) = encode_Date (Some a)"
    and "\<bar>d\<bar> \<le> 8640000000000000" and "\<bar>a\<bar> \<le> 8640000000000000"
    and "\<bar>a - d\<bar> < 9007199254740992"
  shows "i < length (connections r)
       \<and> conn_departure (connections r ! i) = iso_string d
       \<and> conn_arrival (connections r ! i) = iso_string a
       \<and> duration (connections r ! i) = Some (Math_round (of_int (a - d) / 60000))"
proof -
  define c where "c = connections r ! i"
  define trains where "trains = aoTrains (conns ! i)"
  from run_searched [OF assms(1,2)] assms(3,4)
  obtain prices where m: "merged w departure h prices conns = Inr r" by auto
  have len: "i < length (connections r)" using merged_Inr(2) [OF m] assms(5) by simp
  have tc: "toConnection w departure prices i (conns ! i) = Inr c"
    unfolding c_def using merged_Inr(3) [OF m assms(5)] .
  then obtain ls where ls: "mapM_result toLeg trains = Inr ls"
    by (auto simp: toConnection_def trains_def split: sum.splits)
  with tc have legs: "legs c = ls" by (auto simp: toConnection_def trains_def Let_def)
  from mapM_result_Inr [OF ls] have l: "length ls = length trains"
    and nth: "\<And>j. j < length trains \<Longrightarrow> toLeg (trains ! j) = Inr (ls ! j)" by simp_all
  have ne: "trains \<noteq> []" "ls \<noteq> []" using assms(6) l by (auto simp: trains_def)
  have "toLeg (hd trains) = Inr (hd ls)"
    using nth [of 0] ne by (simp add: hd_conv_nth)
  from toLeg_Inr [OF this] assms(7)
  have "parseDate (encode_Date (Some d)) = Inr (leg_departure (hd ls))"
    by (simp add: trains_def)
  with parseDate_encoded_instant [OF assms(9)]
  have dep: "leg_departure (hd ls) = iso_string d" by simp
  have "toLeg (last trains) = Inr (last ls)"
    using nth [of "length trains - 1"] ne l by (simp add: last_conv_nth)
  from toLeg_Inr [OF this] assms(8)
  have "parseDate (encode_Date (Some a)) = Inr (leg_arrival (last ls))"
    by (simp add: trains_def)
  with parseDate_encoded_instant [OF assms(10)]
  have arr: "leg_arrival (last ls) = iso_string a" by simp
  have cd: "conn_departure c = iso_string d"
    using toConnection_Inr(5) [OF tc] ne dep
    by (simp add: legs js_index_first or_string_def iso_string_nonempty)
  have ca: "conn_arrival c = iso_string a"
    using toConnection_Inr(6) [OF tc] ne arr
    by (simp add: legs js_index_last or_string_def iso_string_nonempty)
  have "duration c = Some (Math_round (of_int (a - d) / 60000))"
    using toConnection_Inr(7) [OF tc] assms(9,10)
    by (simp add: cd ca Date_parse_iso_string durationMinutes_exact [OF assms(11)])
  with len cd ca show ?thesis by (simp add: c_def)
qed

text \<open>
  Claim C4 (duration), as amended. The claim adds that the duration is never negative;
  the code checks no chronology, and the duration of a connection whose last arrival is
  before its first departure is negative (the counterexample below). What holds for every
  connection returned: its departure and arrival are the first leg's departure and the last
  leg's arrival (the requested departure when there is no leg or that string is empty);
  its duration is \<open>NaN\<close> when one of the two fields is not a date and a number otherwise;
  that number is \<open>round((arrival - departure) / 60000)\<close> of the instants of the two
  fields whenever they are less than \<open>2^53\<close> milliseconds apart; and it is at least zero
  whenever the arrival is not before the departure.
\<close>

theorem duration_invariant:
  assumes "searchConnections w from to departure passengers = (Inr r, sent)"
    and "c \<in> set (connections r)"
  shows "conn_departure c =
           (if legs c = [] \<or> leg_departure (hd (legs c)) = [] then departure
            else leg_departure (hd (legs c)))
       \<and> conn_arrival c =
           (if legs c = [] \<or> leg_arrival (last (legs c)) = [] then departure
            else leg_arrival (last (legs c)))
       \<and> (case Date_parse (host_Date_parse w) (conn_arrival c) of
            None \<Rightarrow> duration c = None
          | Some a \<Rightarrow>
              (case Date_parse (host_Date_parse w) (conn_departure c) of
                 None \<Rightarrow> duration c = None
               | Some d \<Rightarrow>
                   (\<exists>m. duration c = Some m
                      \<and> (\<bar>a - d\<bar> < 9007199254740992 \<longrightarrow>
                            m = Math_round (of_int (a - d) / 60000))
                      \<and> (d \<le> a \<longrightarrow> 0 \<le> m))))"
proof -
  from returned_connection [OF assms] obtain prices idx conn
    where c: "toConnection w departure prices idx conn = Inr c" by blast
  have dep: "conn_departure c =
           (if legs c = [] \<or> leg_departure (hd (legs c)) = [] then departure
            else leg_departure (hd (legs c)))"
    using toConnection_Inr(5) [OF c] by (simp add: js_index_first or_string_def)
  have arr: "conn_arrival c =
           (if legs c = [] \<or> leg_arrival (last (legs c)) = [] then departure
            else leg_arrival (last (legs c)))"
    using toConnection_Inr(6) [OF c] by (auto simp: js_index_last or_string_def)
  have dur: "(case Date_parse (host_Date_parse w) (conn_arrival c) of
            None \<Rightarrow> duration c = None
          | Some a \<Rightarrow>
              (case Date_parse (host_Date_parse w) (conn_departure c) of
                 None \<Rightarrow> duration c = None
               | Some d \<Rightarrow>
                   (\<exists>m. duration c = Some m
                      \<and> (\<bar>a - d\<bar> < 9007199254740992 \<longrightarrow>
                            m = Math_round (of_int (a - d) / 60000))
                      \<and> (d \<le> a \<longrightarrow> 0 \<le> m))))"
    using toConnection_Inr(7) [OF c] durationMinutes_Some
    by (auto simp: durationMinutes_None split: option.splits)
  from dep arr dur show ?thesis by blast
qed

theorem duration_invariant_witness:
  "Date_parse (\<lambda>s. None) ''2025-12-15T13:13:00.000Z'' = Some 1765804380000
   \<and> Date_parse (\<lambda>s. None) ''2025-12-15T10:36:00.000Z'' = Some 1765794960000
   \<and> (case fst (searchConnections
          (stub_world (found three_connections)
             (Inr (Some [\<lparr>iPrice = Some 1000\<rparr>, \<lparr>iPrice = Some 0\<rparr>, \<lparr>iPrice = Some 3000\<rparr>])))
          ''Praha'' ''Brno'' ''2025-12-15T10:00:00.000Z'' 1) of
         Inl e \<Rightarrow> None
       | Inr r \<Rightarrow> duration (hd (connections r)))
      = Some (Math_round (of_int (1765804380000 - 1765794960000) / 60000))
   \<and> Math_round (of_int (1765804380000 - 1765794960000) / 60000) = 157"
proof -
  have a: "Date_parse (\<lambda>s. None) ''2025-12-15T13:13:00.000Z'' = Some 1765804380000"
    by code_simp
  have d: "Date_parse (\<lambda>s. None) ''2025-12-15T10:36:00.000Z'' = Some 1765794960000"
    by code_simp
  have m: "Math_round (of_int (1765804380000 - 1765794960000) / 60000) = 157"
    by code_simp
  note th = duration_invariant [OF run_three_priced first_of_three]
  have "Some (157::int) = Some (Math_round (of_int (1765804380000 - 1765794960000) / 60000))"
    using th a d by (simp add: stub_world_def)
  then show ?thesis
    using a d m by (simp add: run_three_priced three_domain_connections_def)
qed

text \<open>
  One leg that departs at minute 1 of the epoch and arrives at minute 0: the duration is
  \<open>-1\<close>.
\<close>

theorem duration_negative_counterexample:
  "searchConnections
     (stub_world (found [\<lparr>iID = 1, aoTrains = [raw_leg ''/Date(60000)/'' ''/Date(0)/'']\<rparr>])
        (Inr (Some [\<lparr>iPrice = Some 1000\<rparr>])))
     ''Praha'' ''Brno'' ''2025-12-15T10:00:00.000Z'' 1
   = (Inr \<lparr>handle = Some ''7'',
           connections =
             [\<lparr>conn_id = ''1'', conn_departure = ''1970-01-01T00:01:00.000Z'',
               conn_arrival = ''1970-01-01T00:00:00.000Z'', duration = Some (- 1), transfers = 0,
               legs = [domain_leg ''1970-01-01T00:01:00.000Z'' ''1970-01-01T00:00:00.000Z''],
               price = Some \<lparr>amount = 10, currency = ''CZK''\<rparr>\<rparr>]\<rparr>,
      requests_until_search @ [GetConnectionsPrice ''s1'' 7 [1] [default_passenger]])"
  by code_simp

text \<open>
  Claim C5 (transfers), as amended. The claim adds that the count is never negative and
  that a connection without legs is never constructed; the code maps a raw connection
  with an empty train list to a connection with no legs and \<open>-1\<close> transfers (the
  counterexample below; the optional chaining on \<open>firstLeg\<close> and \<open>lastLeg\<close> provides for
  it). What holds for every connection returned: the transfer count is the number of legs
  minus one, it is at least zero when there is a leg, and one leg means zero transfers.
\<close>

theorem transfers_invariant:
  assumes "searchConnections w from to departure passengers = (Inr r, sent)"
    and "c \<in> set (connections r)"
  shows "transfers c = int (length (legs c)) - 1
       \<and> (legs c \<noteq> [] \<longrightarrow> 0 \<le> transfers c)
       \<and> (length (legs c) = 1 \<longrightarrow> transfers c = 0)"
proof -
  from returned_connection [OF assms] obtain prices idx conn
    where c: "toConnection w departure prices idx conn = Inr c" by blast
  have "transfers c = int (length (legs c)) - 1"
    using toConnection_Inr(2) [OF c] toConnection_Inr(3) [OF c] by simp
  then show ?thesis by (cases "legs c") simp_all
qed

theorem transfers_invariant_witness:
  "(case fst (searchConnections
       (stub_world (found three_connections)
          (Inr (Some [\<lparr>iPrice = Some 1000\<rparr>, \<lparr>iPrice = Some 0\<rparr>, \<lparr>iPrice = Some 3000\<rparr>])))
       ''Praha'' ''Brno'' ''2025-12-15T10:00:00.000Z'' 1) of
      Inl e \<Rightarrow> []
    | Inr r \<Rightarrow> map (\<lambda>c. (length (legs c), transfers c)) (connections r))
   = [(1, 0), (1, 0), (2, 1)]"
  using transfers_invariant [OF run_three_priced first_of_three]
    transfers_invariant [OF run_three_priced third_of_three]
  by (simp add: run_three_priced three_domain_connections_def)

text \<open>A raw connection without trains is passed on, with \<open>-1\<close> transfers.\<close>

theorem transfers_empty_legs_counterexample:
  "searchConnections
     (stub_world (found [\<lparr>iID = 1, aoTrains = []\<rparr>]) (Inr (Some [\<lparr>iPrice = Some 1000\<rparr>])))
     ''Praha'' ''Brno'' ''2025-12-15T10:00:00.000Z'' 1
   = (Inr \<lparr>handle = Some ''7'',
           connections =
             [\<lparr>conn_id = ''1'', conn_departure = ''2025-12-15T10:00:00.000Z'',
               conn_arrival = ''2025-12-15T10:00:00.000Z'', duration = Some 0, transfers = - 1,
               legs = [], price = Some \<lparr>amount = 10, currency = ''CZK''\<rparr>\<rparr>]\<rparr>,
      requests_until_search @ [GetConnectionsPrice ''s1'' 7 [1] [default_passenger]])"
  by code_simp

subsection \<open>No connections\<close>

text \<open>
  Claim C6 (empty result), as amended. The early return is taken when the answer carries
  no connection list: the answer itself is \<open>null\<close>, or its \<open>oConnInfo\<close> is absent or \<open>null\<close>,
  or the \<open>aoConnections\<close> of that is. Then the result is an empty list without a handle,
  and the search request is the last request sent. An empty array is truthy in
  JavaScript, so an answer with an empty list goes on: one price request with no
  identifier is sent, and the result is an empty list with the handle. In both cases no
  error is raised.
\<close>

theorem empty_result:
  assumes "searchConnections w from to departure passengers = (out, sent)"
    and "SearchConnectionInfo1 sid f t dt ps \<in> set sent"
    and "on_SearchConnectionInfo1 w sid f t dt ps = Inr result"
  shows "(result = None
          \<or> (\<exists>r. result = Some r \<and> oConnInfo r = None)
          \<or> (\<exists>r ci. result = Some r \<and> oConnInfo r = Some ci \<and> aoConnections ci = None) \<longrightarrow>
            out = Inr \<lparr>handle = None, connections = []\<rparr>
          \<and> sent = [SearchGlobalListItemInfoExt from 5, SearchGlobalListItemInfoExt to 5,
                    CreateSession, SearchConnectionInfo1 sid f t dt ps])
       \<and> (\<forall>r ci. result = Some r \<and> oConnInfo r = Some ci \<and> aoConnections ci = Some [] \<longrightarrow>
            out = Inr \<lparr>handle = Some (Number_toString (iHandle r)), connections = []\<rparr>
          \<and> sent = [SearchGlobalListItemInfoExt from 5, SearchGlobalListItemInfoExt to 5,
                    CreateSession, SearchConnectionInfo1 sid f t dt ps,
                    GetConnectionsPrice sid (iHandle r) [] ps])"
  using run_searched [OF assms(1,2)] assms(3)
  by (auto simp: guarded_aoConnections_def merged_def enumerate_eq_zip)

text \<open>
  The three shapes of an answer without a connection list, against the stub upstream:
  \<open>oConnInfo\<close> absent, the answer \<open>null\<close>, and \<open>aoConnections\<close> \<open>null\<close>.
\<close>

theorem empty_result_witness:
  "searchConnections (stub_world (Inr (Some \<lparr>iHandle = 7, oConnInfo = None\<rparr>)) (Inr (Some [])))
       ''Praha'' ''Brno'' ''2025-12-15T10:00:00.000Z'' 1
     = (Inr \<lparr>handle = None, connections = []\<rparr>,
        [SearchGlobalListItemInfoExt ''Praha'' 5, SearchGlobalListItemInfoExt ''Brno'' 5, CreateSession,
         SearchConnectionInfo1 ''s1'' \<lparr>iListID = 5457076, sName = ''Praha hl.n.''\<rparr>
           \<lparr>iListID = 5453179, sName = ''Brno hl.n.''\<rparr> ''/Date(1765792800000)/'' [default_passenger]])
   \<and> searchConnections (stub_world (Inr None) (Inr (Some [])))
       ''Praha'' ''Brno'' ''2025-12-15T10:00:00.000Z'' 1
     = (Inr \<lparr>handle = None, connections = []\<rparr>,
        [SearchGlobalListItemInfoExt ''Praha'' 5, SearchGlobalListItemInfoExt ''Brno'' 5, CreateSession,
         SearchConnectionInfo1 ''s1'' \<lparr>iListID = 5457076, sName = ''Praha hl.n.''\<rparr>
           \<lparr>iListID = 5453179, sName = ''Brno hl.n.''\<rparr> ''/Date(1765792800000)/'' [default_passenger]])
   \<and> searchConnections
       (stub_world (Inr (Some \<lparr>iHandle = 7, oConnInfo = Some \<lparr>aoConnections = None\<rparr>\<rparr>)) (Inr (Some [])))
       ''Praha'' ''Brno'' ''2025-12-15T10:00:00.000Z'' 1
     = (Inr \<lparr>handle = None, connections = []\<rparr>,
        [SearchGlobalListItemInfoExt ''Praha'' 5, SearchGlobalListItemInfoExt ''Brno'' 5, CreateSession,
         SearchConnectionInfo1 ''s1'' \<lparr>iListID = 5457076, sName = ''Praha hl.n.''\<rparr>
           \<lparr>iListID = 5453179, sName = ''Brno hl.n.''\<rparr> ''/Date(1765792800000)/'' [default_passenger]])"
proof -
  let ?req = "SearchConnectionInfo1 ''s1'' \<lparr>iListID = 5457076, sName = ''Praha hl.n.''\<rparr>
           \<lparr>iListID = 5453179, sName = ''Brno hl.n.''\<rparr> ''/Date(1765792800000)/'' [default_passenger]"
  have mem: "?req \<in> set requests_until_search"
    by (simp add: requests_until_search_def)
  have ans: "on_SearchConnectionInfo1 (stub_world (Inr answer) (Inr (Some []))) ''s1''
           \<lparr>iListID = 5457076, sName = ''Praha hl.n.''\<rparr>
           \<lparr>iListID = 5453179, sName = ''Brno hl.n.''\<rparr> ''/Date(1765792800000)/'' [default_passenger]
       = Inr answer" for answer
    by (simp add: stub_world_def)
  have r1: "requests_until_search =
      [SearchGlobalListItemInfoExt ''Praha'' 5, SearchGlobalListItemInfoExt ''Brno'' 5, CreateSession, ?req]"
    using empty_result [OF run_no_list mem ans, THEN conjunct1] by simp
  have r2: "requests_until_search =
      [SearchGlobalListItemInfoExt ''Praha'' 5, SearchGlobalListItemInfoExt ''Brno'' 5, CreateSession, ?req]"
    using empty_result [OF run_null_answer mem ans, THEN conjunct1] by simp
  have r3: "requests_until_search =
      [SearchGlobalListItemInfoExt ''Praha'' 5, SearchGlobalListItemInfoExt ''Brno'' 5, CreateSession, ?req]"
    using empty_result [OF run_null_list mem ans, THEN conjunct1] by simp
  from r1 r2 r3 show ?thesis
    by (simp add: run_no_list run_null_answer run_null_list)
qed

text \<open>Zero raw connections as an empty array: the price request is sent all the same.\<close>

theorem empty_array_price_call_counterexample:
  "found [] = Inr (Some \<lparr>iHandle = 7, oConnInfo = Some \<lparr>aoConnections = Some []\<rparr>\<rparr>)
   \<and> searchConnections (stub_world (found []) (Inr (Some [])))
       ''Praha'' ''Brno'' ''2025-12-15T10:00:00.000Z'' 1
     = (Inr \<lparr>handle = Some ''7'', connections = []\<rparr>,
        requests_until_search @ [GetConnectionsPrice ''s1'' 7 [] [default_passenger]])"
  by code_simp

subsection \<open>Stations that cannot be resolved\<close>

lemma Promise_all2_Inl:
  "Promise_all2 b p q = Inl e \<Longrightarrow> p = Inl e \<or> q = Inl e"
  by (auto simp: Promise_all2_def split: sum.splits if_splits)

lemma searchStation_result:
  "fst (searchStation w q []) =
     (case on_SearchGlobalListItemInfoExt w q 5 of
        Inl e \<Rightarrow> Inl e
      | Inr None \<Rightarrow> Inl (Error (''Station not found: '' @ q))
      | Inr (Some []) \<Rightarrow> Inl (Error (''Station not found: '' @ q))
      | Inr (Some (item # _)) \<Rightarrow> Inr \<lparr>station_id = iListID item, station_name = sName item\<rparr>)"
  by (simp add: searchStation_def post_SearchGlobalListItemInfoExt_def
      split: sum.splits option.splits list.splits)

text \<open>
  Claim C8 (resolver failure), as amended. The two station lookups run concurrently and
  \<open>Promise.all\<close> rejects with the first rejection. A lookup rejects with the error of
  \<open>postRequest\<close> when the request fails, and with an \<open>Error\<close> with the message
  \<open>Station not found: <query>\<close> when the answer has no candidate (an empty or absent
  list). So when the upstream answers both lookups and one of them has no candidate, the
  search throws \<open>Station not found\<close> naming a query without candidates (the first lookup
  to settle when both have none). When a request fails, the error thrown is that of the
  only lookup that rejects, or of the first to settle when both do, so that a failed
  request can hide a query without candidates (the counterexample below) and the other
  way round. In every case where a station lookup rejects, the two station requests are
  the only requests sent: no session, search or price request follows.
\<close>

theorem station_not_found:
  "(\<forall>rf rt. on_SearchGlobalListItemInfoExt w from 5 = Inr rf
        \<and> on_SearchGlobalListItemInfoExt w to 5 = Inr rt
        \<and> (rf \<in> {None, Some []} \<or> rt \<in> {None, Some []}) \<longrightarrow>
      searchConnections w from to departure passengers =
        (Inl (Error (''Station not found: ''
               @ (if rf \<in> {None, Some []} \<and> (rt \<notin> {None, Some []} \<or> \<not> second_settles_first w)
                  then from else to))),
         [SearchGlobalListItemInfoExt from 5, SearchGlobalListItemInfoExt to 5]))
   \<and> (\<forall>e rt. on_SearchGlobalListItemInfoExt w from 5 = Inl e
        \<and> on_SearchGlobalListItemInfoExt w to 5 = Inr rt \<longrightarrow>
      searchConnections w from to departure passengers =
        (Inl (if rt \<in> {None, Some []} \<and> second_settles_first w
              then Error (''Station not found: '' @ to) else e),
         [SearchGlobalListItemInfoExt from 5, SearchGlobalListItemInfoExt to 5]))
   \<and> (\<forall>rf e. on_SearchGlobalListItemInfoExt w from 5 = Inr rf
        \<and> on_SearchGlobalListItemInfoExt w to 5 = Inl e \<longrightarrow>
      searchConnections w from to departure passengers =
        (Inl (if rf \<in> {None, Some []} \<and> \<not> second_settles_first w
              then Error (''Station not found: '' @ from) else e),
         [SearchGlobalListItemInfoExt from 5, SearchGlobalListItemInfoExt to 5]))
   \<and> (\<forall>e1 e2. on_SearchGlobalListItemInfoExt w from 5 = Inl e1
        \<and> on_SearchGlobalListItemInfoExt w to 5 = Inl e2 \<longrightarrow>
      searchConnections w from to departure passengers =
        (Inl (if second_settles_first w then e2 else e1),
         [SearchGlobalListItemInfoExt from 5, SearchGlobalListItemInfoExt to 5]))"
proof (intro conjI allI impI)
  fix rf rt
  assume "on_SearchGlobalListItemInfoExt w from 5 = Inr rf
        \<and> on_SearchGlobalListItemInfoExt w to 5 = Inr rt
        \<and> (rf \<in> {None, Some []} \<or> rt \<in> {None, Some []})"
  then show "searchConnections w from to departure passengers =
        (Inl (Error (''Station not found: ''
               @ (if rf \<in> {None, Some []} \<and> (rt \<notin> {None, Some []} \<or> \<not> second_settles_first w)
                  then from else to))),
         [SearchGlobalListItemInfoExt from 5, SearchGlobalListItemInfoExt to 5])"
    by (auto simp: searchConnections_unfold searchStation_result Promise_all2_def
        split: sum.splits option.splits list.splits)
next
  fix e rt
  assume "on_SearchGlobalListItemInfoExt w from 5 = Inl e
        \<and> on_SearchGlobalListItemInfoExt w to 5 = Inr rt"
  then show "searchConnections w from to departure passengers =
        (Inl (if rt \<in> {None, Some []} \<and> second_settles_first w
              then Error (''Station not found: '' @ to) else e),
         [SearchGlobalListItemInfoExt from 5, SearchGlobalListItemInfoExt to 5])"
    by (auto simp: searchConnections_unfold searchStation_result Promise_all2_def
        split: sum.splits option.splits list.splits)
next
  fix rf e
  assume "on_SearchGlobalListItemInfoExt w from 5 = Inr rf
        \<and> on_SearchGlobalListItemInfoExt w to 5 = Inl e"
  then show "searchConnections w from to departure passengers =
        (Inl (if rf \<in> {None, Some []} \<and> \<not> second_settles_first w
              then Error (''Station not found: '' @ from) else e),
         [SearchGlobalListItemInfoExt from 5, SearchGlobalListItemInfoExt to 5])"
    by (auto simp: searchConnections_unfold searchStation_result Promise_all2_def
        split: sum.splits option.splits list.splits)
next
  fix e1 e2
  assume "on_SearchGlobalListItemInfoExt w from 5 = Inl e1
        \<and> on_SearchGlobalListItemInfoExt w to 5 = Inl e2"
  then show "searchConnections w from to departure passengers =
        (Inl (if second_settles_first w then e2 else e1),
         [SearchGlobalListItemInfoExt from 5, SearchGlobalListItemInfoExt to 5])"
    by (auto simp: searchConnections_unfold searchStation_result Promise_all2_def
        split: sum.splits option.splits list.splits)
qed

text \<open>
  The scenario of the specification, and the order of settling at work: the request for
  the origin fails, the destination has no candidate, and the lookup of the destination
  settles first, so that \<open>Station not found\<close> is thrown.
\<close>

theorem station_not_found_witness:
  "on_SearchGlobalListItemInfoExt (stub_world (found three_connections) (Inr (Some []))) ''Nonexistentville'' 5
     = Inr (Some [])
   \<and> searchConnections (stub_world (found three_connections) (Inr (Some [])))
       ''Nonexistentville'' ''Brno'' ''2025-12-15T10:00:00.000Z'' 1
     = (Inl (Error ''Station not found: Nonexistentville''),
        [SearchGlobalListItemInfoExt ''Nonexistentville'' 5, SearchGlobalListItemInfoExt ''Brno'' 5])
   \<and> on_SearchGlobalListItemInfoExt (second_first_world (found three_connections) (Inr (Some []))) ''Timeout'' 5
     = Inl (Error ''API request failed: 504 Gateway Timeout - '')
   \<and> second_settles_first (second_first_world (found three_connections) (Inr (Some [])))
   \<and> searchConnections (second_first_world (found three_connections) (Inr (Some [])))
       ''Timeout'' ''Nonexistentville'' ''2025-12-15T10:00:00.000Z'' 1
     = (Inl (Error ''Station not found: Nonexistentville''),
        [SearchGlobalListItemInfoExt ''Timeout'' 5, SearchGlobalListItemInfoExt ''Nonexistentville'' 5])"
proof -
  let ?w = "stub_world (found three_connections) (Inr (Some []))"
  let ?w2 = "second_first_world (found three_connections) (Inr (Some []))"
  have f: "on_SearchGlobalListItemInfoExt ?w ''Nonexistentville'' 5 = Inr (Some [])"
    by (simp add: stub_world_def known_stations_def)
  have t: "on_SearchGlobalListItemInfoExt ?w ''Brno'' 5
      = Inr (Some [\<lparr>iListID = 5453179, sName = ''Brno hl.n.''\<rparr>])"
    by (simp add: stub_world_def known_stations_def)
  have f2: "on_SearchGlobalListItemInfoExt ?w2 ''Timeout'' 5
      = Inl (Error ''API request failed: 504 Gateway Timeout - '')"
    by (simp add: second_first_world_def stub_world_def known_stations_def)
  have t2: "on_SearchGlobalListItemInfoExt ?w2 ''Nonexistentville'' 5 = Inr (Some [])"
    by (simp add: second_first_world_def stub_world_def known_stations_def)
  have s2: "second_settles_first ?w2"
    by (simp add: second_first_world_def)
  from station_not_found [of ?w "''Nonexistentville''" "''Brno''" "''2025-12-15T10:00:00.000Z''" 1,
      THEN conjunct1, rule_format, of "Some []" "Some [\<lparr>iListID = 5453179, sName = ''Brno hl.n.''\<rparr>]"] f t
  have "searchConnections ?w ''Nonexistentville'' ''Brno'' ''2025-12-15T10:00:00.000Z'' 1
     = (Inl (Error ''Station not found: Nonexistentville''),
        [SearchGlobalListItemInfoExt ''Nonexistentville'' 5, SearchGlobalListItemInfoExt ''Brno'' 5])"
    by simp
  moreover
  from station_not_found [of ?w2 "''Timeout''" "''Nonexistentville''" "''2025-12-15T10:00:00.000Z''" 1,
      THEN conjunct2, THEN conjunct1, rule_format,
      of "Error ''API request failed: 504 Gateway Timeout - ''" "Some []"] f2 t2 s2
  have "searchConnections ?w2 ''Timeout'' ''Nonexistentville'' ''2025-12-15T10:00:00.000Z'' 1
     = (Inl (Error ''Station not found: Nonexistentville''),
        [SearchGlobalListItemInfoExt ''Timeout'' 5, SearchGlobalListItemInfoExt ''Nonexistentville'' 5])"
    by simp
  ultimately show ?thesis using f f2 s2 by simp
qed

text \<open>
  The lookup of the origin fails on the network and settles first; the destination has no
  candidate. The error thrown is the network failure, not \<open>Station not found\<close>.
\<close>

theorem other_lookup_fails_counterexample:
  "on_SearchGlobalListItemInfoExt (stub_world (found three_connections) (Inr (Some []))) ''Nonexistentville'' 5
     = Inr (Some [])
   \<and> searchConnections (stub_world (found three_connections) (Inr (Some [])))
       ''Timeout'' ''Nonexistentville'' ''2025-12-15T10:00:00.000Z'' 1
     = (Inl (Error ''API request failed: 504 Gateway Timeout - ''),
        [SearchGlobalListItemInfoExt ''Timeout'' 5, SearchGlobalListItemInfoExt ''Nonexistentville'' 5])"
  by code_simp

subsection \<open>The location search\<close>

lemma String_of_JSON_integer_exact:
  "\<bar>n\<bar> \<le> 9007199254740992 \<Longrightarrow> String_of_JSON_integer host n = Number_toString n"
  by (simp add: String_of_JSON_integer_def double_of_int54_def)

text \<open>
  Claim C9 (the type filter does not interfere), as amended. For every query, any two
  values of the optional type argument give the same result and the same request; the
  request sent is the name search for the query alone, so the filter never reaches the
  upstream; and when the upstream answers, every location returned has the type
  \<open>station\<close>, the name of the item at its position and, when the \<open>iListID\<close> of that item
  is at most \<open>2^53\<close> in magnitude, its decimal string as key (reading the key back as a
  decimal number gives that \<open>iListID\<close>). The claim has the last part for every \<open>iListID\<close>;
  but the client holds the identifier in a double, and beyond \<open>2^53\<close> the key is the
  string of the nearest double (the counterexample below).
\<close>

theorem searchLocations_ignores_type:
  "searchLocations w query t1 = searchLocations w query t2
   \<and> snd (searchLocations w query t1) = [SearchGlobalListItemInfoExt query 10]
   \<and> (\<forall>result. on_SearchGlobalListItemInfoExt w query 10 = Inr result \<longrightarrow>
        (\<exists>ls. fst (searchLocations w query t1) = Inr ls
            \<and> length ls = length (case result of None \<Rightarrow> [] | Some items \<Rightarrow> items)
            \<and> (\<forall>i<length ls.
                  loc_type (ls ! i) = ''station''
                \<and> loc_name (ls ! i) = sName ((case result of None \<Rightarrow> [] | Some items \<Rightarrow> items) ! i)
                \<and> (\<bar>iListID ((case result of None \<Rightarrow> [] | Some items \<Rightarrow> items) ! i)\<bar>
                      \<le> 9007199254740992 \<longrightarrow>
                     loc_key (ls ! i) =
                       Number_toString (iListID ((case result of None \<Rightarrow> [] | Some items \<Rightarrow> items) ! i))
                   \<and> parseInt10 (loc_key (ls ! i)) =
                       Some (iListID ((case result of None \<Rightarrow> [] | Some items \<Rightarrow> items) ! i))))))"
  by (auto simp: searchLocations_def post_SearchGlobalListItemInfoExt_def
      String_of_JSON_integer_exact parseInt10_Number_toString split: sum.splits option.splits)

theorem searchLocations_ignores_type_witness:
  "searchLocations (stub_world (found []) (Inr None)) ''Praha'' None
     = searchLocations (stub_world (found []) (Inr None)) ''Praha'' (Some ''city'')
   \<and> searchLocations (stub_world (found []) (Inr None)) ''Praha'' (Some ''city'')
     = (Inr [\<lparr>loc_key = ''5457076'', loc_name = ''Praha hl.n.'', loc_type = ''station''\<rparr>],
        [SearchGlobalListItemInfoExt ''Praha'' 10])
   \<and> ''5457076'' = Number_toString 5457076
   \<and> parseInt10 ''5457076'' = Some 5457076"
proof -
  let ?w = "stub_world (found []) (Inr None)"
  have run: "searchLocations ?w ''Praha'' (Some ''city'')
     = (Inr [\<lparr>loc_key = ''5457076'', loc_name = ''Praha hl.n.'', loc_type = ''station''\<rparr>],
        [SearchGlobalListItemInfoExt ''Praha'' 10])"
    by code_simp
  have ans: "on_SearchGlobalListItemInfoExt ?w ''Praha'' 10
      = Inr (Some [\<lparr>iListID = 5457076, sName = ''Praha hl.n.''\<rparr>])"
    by (simp add: stub_world_def known_stations_def)
  note th = searchLocations_ignores_type [of ?w "''Praha''" "Some ''city''" None]
  from th have same: "searchLocations ?w ''Praha'' None = searchLocations ?w ''Praha'' (Some ''city'')"
    by simp
  have key: "''5457076'' = Number_toString 5457076 \<and> parseInt10 ''5457076'' = Some 5457076"
    using th [THEN conjunct2, THEN conjunct2, rule_format, OF ans, unfolded run, simplified]
    by blast
  from same run key show ?thesis by blast
qed

text \<open>
  The upstream numbers a station \<open>2^53 + 1\<close>, which is not a double; the client receives
  \<open>2^53\<close>, and the key is the string of that.
\<close>

theorem key_beyond_2_53_counterexample:
  "on_SearchGlobalListItemInfoExt far_station_world ''Far'' 10
     = Inr (Some [\<lparr>iListID = 9007199254740993, sName = ''Far''\<rparr>])
   \<and> searchLocations far_station_world ''Far'' None
     = (Inr [\<lparr>loc_key = ''9007199254740992'', loc_name = ''Far'', loc_type = ''station''\<rparr>],
        [SearchGlobalListItemInfoExt ''Far'' 10])
   \<and> Number_toString 9007199254740993 = ''9007199254740993''
   \<and> parseInt10 ''9007199254740992'' = Some 9007199254740992"
  by code_simp

subsection \<open>The pricing fallback\<close>

text \<open>
  When the price request fails, every connection that is returned has no price, the
  connections are those of the search answer in order, the search returns whenever every
  timestamp can be decoded, and the only error that can still be thrown is the
  \<open>RangeError\<close> of \<open>parseDate\<close>, never the failure of the price request.
\<close>

lemma price_failure_degrades_to_no_price:
  assumes "searchConnections w from to departure passengers = (out, sent)"
    and "GetConnectionsPrice sid h ids aps \<in> set sent"
    and "on_GetConnectionsPrice w sid h ids aps = Inl e"
  shows "\<exists>conns. ids = map iID conns
           \<and> (\<forall>r. out = Inr r \<longrightarrow>
                 length (connections r) = length conns
               \<and> (\<forall>i<length conns. conn_id (connections r ! i) = Number_toString (iID (conns ! i))
                                   \<and> price (connections r ! i) = None))
           \<and> (decodable conns \<longrightarrow> (\<exists>r. out = Inr r))
           \<and> (\<forall>e'. out = Inl e' \<longrightarrow> e' = RangeError ''Invalid time value'')"
proof -
  from run_priced [OF assms(1,2)] assms(3)
  obtain conns where ids: "ids = map iID conns"
    and out: "out = merged w departure h (map (\<lambda>_. 0) conns) conns"
    by (auto simp: prices_used_def)
  have "length (connections r) = length conns
      \<and> (\<forall>i<length conns. conn_id (connections r ! i) = Number_toString (iID (conns ! i))
                                   \<and> price (connections r ! i) = None)" if r: "out = Inr r" for r
  proof -
    from r out have m: "merged w departure h (map (\<lambda>_. 0) conns) conns = Inr r" by simp
    have "conn_id (connections r ! i) = Number_toString (iID (conns ! i))
        \<and> price (connections r ! i) = None" if i: "i < length conns" for i
      using toConnection_Inr(1) [OF merged_Inr(3) [OF m i]]
        toConnection_Inr(4) [OF merged_Inr(3) [OF m i]] i
      by (simp add: js_index_def)
    with merged_Inr(2) [OF m] show ?thesis by blast
  qed
  moreover have "decodable conns \<longrightarrow> (\<exists>r. out = Inr r)"
    using merged_total [of conns w departure h "map (\<lambda>_. 0) conns"] out by auto
  moreover have "\<forall>e'. out = Inl e' \<longrightarrow> e' = RangeError ''Invalid time value''"
    using out merged_Inl by metis
  ultimately show ?thesis using ids by blast
qed

text \<open>
  Against the stub upstream, with timestamps that decode and a price request that fails,
  the three connections come back without prices.
\<close>

lemma run_three_unpriced:
  "searchConnections
     (stub_world (found three_connections) (Inl (Error ''API request failed: 500 Internal Server Error - '')))
     ''Praha'' ''Brno'' ''2025-12-15T10:00:00.000Z'' 1
   = (Inr \<lparr>handle = Some ''7'', connections = three_domain_connections [None, None, None]\<rparr>,
      requests_until_search @ [GetConnectionsPrice ''s1'' 7 [1, 2, 3] [default_passenger]])"
  by code_simp

text \<open>
  Claim C2 (pricing may fail). The claim says that a search whose price request fails
  still returns every connection, without prices. The \<open>catch\<close> block does swallow the
  failure (the lemma above), but the merge that follows calls \<open>parseDate\<close>, which throws
  on a timestamp beyond the range of \<open>Date\<close> (see claim C7): on such an answer the search
  throws a \<open>RangeError\<close> instead of returning the connections.
\<close>

theorem price_failure_undecodable_leg:
  "on_GetConnectionsPrice
     (stub_world (found [\<lparr>iID = 1, aoTrains = [raw_leg ''/Date(8640000000000001)/'' ''/Date(1765804380000)/'']\<rparr>])
        (Inl (Error ''API request failed: 500 Internal Server Error - '')))
     ''s1'' 7 [1] [default_passenger]
     = Inl (Error ''API request failed: 500 Internal Server Error - '')
   \<and> searchConnections
     (stub_world (found [\<lparr>iID = 1, aoTrains = [raw_leg ''/Date(8640000000000001)/'' ''/Date(1765804380000)/'']\<rparr>])
        (Inl (Error ''API request failed: 500 Internal Server Error - '')))
     ''Praha'' ''Brno'' ''2025-12-15T10:00:00.000Z'' 1
   = (Inl (RangeError ''Invalid time value''),
      requests_until_search @ [GetConnectionsPrice ''s1'' 7 [1] [default_passenger]])"
  by code_simp

text \<open>
  When the price list is shorter than the connection list, the connections beyond its end
  have no price, and again the search returns whenever every timestamp can be decoded.
\<close>

lemma short_price_list_is_safe:
  assumes "searchConnections w from to departure passengers = (out, sent)"
    and "GetConnectionsPrice sid h ids aps \<in> set sent"
    and "on_GetConnectionsPrice w sid h ids aps = Inr priceResult"
    and "length (case priceResult of None \<Rightarrow> [] | Some ps \<Rightarrow> ps) < length ids"
  shows "\<exists>conns. ids = map iID conns
           \<and> (\<forall>r. out = Inr r \<longrightarrow>
                 length (connections r) = length conns
               \<and> (\<forall>i<length conns. length (case priceResult of None \<Rightarrow> [] | Some ps \<Rightarrow> ps) \<le> i
                     \<longrightarrow> price (connections r ! i) = None))
           \<and> (decodable conns \<longrightarrow> (\<exists>r. out = Inr r))
           \<and> (\<forall>e'. out = Inl e' \<longrightarrow> e' = RangeError ''Invalid time value'')"
proof -
  from run_priced [OF assms(1,2)] assms(3)
  obtain conns where ids: "ids = map iID conns"
    and out: "out = merged w departure h (prices_of_response priceResult) conns"
    by (auto simp: prices_used_def)
  have "length (connections r) = length conns
      \<and> (\<forall>i<length conns. length (case priceResult of None \<Rightarrow> [] | Some ps \<Rightarrow> ps) \<le> i
                     \<longrightarrow> price (connections r ! i) = None)" if r: "out = Inr r" for r
  proof -
    from r out have m: "merged w departure h (prices_of_response priceResult) conns = Inr r" by simp
    have "price (connections r ! i) = None"
      if i: "i < length conns" and "length (case priceResult of None \<Rightarrow> [] | Some ps \<Rightarrow> ps) \<le> i" for i
      using toConnection_Inr(4) [OF merged_Inr(3) [OF m i]] that
      by (simp add: js_index_def prices_of_response_def)
    with merged_Inr(2) [OF m] show ?thesis by blast
  qed
  moreover have "decodable conns \<longrightarrow> (\<exists>r. out = Inr r)"
    using merged_total [of conns w departure h "prices_of_response priceResult"] out by auto
  moreover have "\<forall>e'. out = Inl e' \<longrightarrow> e' = RangeError ''Invalid time value''"
    using out merged_Inl by metis
  ultimately show ?thesis using ids by blast
qed

text \<open>
  Claim C10 (a price list shorter than the connection list). The claim says that the
  search then still returns one connection for each raw connection. The lookup
  \<open>prices[idx]\<close> beyond the end is indeed harmless (the lemma above), but as for claim C2
  the merge throws when \<open>parseDate\<close> meets a timestamp beyond the range of \<open>Date\<close> (see
  claim C7), here on the second connection, whose index is beyond the price list.
\<close>

theorem short_price_list_undecodable_leg:
  "searchConnections
     (stub_world
        (found [\<lparr>iID = 1, aoTrains = [raw_leg ''/Date(1765794960000)/'' ''/Date(1765804380000)/'']\<rparr>,
                \<lparr>iID = 2, aoTrains = [raw_leg ''/Date(1765796400000)/'' ''/Date(-8640000000000001)/'']\<rparr>])
        (Inr (Some [\<lparr>iPrice = Some 1000\<rparr>])))
     ''Praha'' ''Brno'' ''2025-12-15T10:00:00.000Z'' 1
   = (Inl (RangeError ''Invalid time value''),
      requests_until_search @ [GetConnectionsPrice ''s1'' 7 [1, 2] [default_passenger]])"
  by code_simp

end
